theory Spec2Isabelle
  imports Main "HOL-Library.Log_Nat" "HOL-Library.Code_Target_Numeral"
begin

section \<open>Python values the generator relies on\<close>

text \<open>
  The exceptions that the modelled code paths of \<^verbatim>\<open>ogg_generator.py\<close> can raise.
  A function that may raise returns \<open>py_error + 'a\<close>, with \<open>Inl\<close> the exception.
\<close>

datatype py_error = OverflowError | ValueError | IndexError | KeyError

subsection \<open>Float literals multiplied by the day number\<close>

text \<open>
  The metrics use expressions such as \<^verbatim>\<open>int(day * 0.03)\<close>: the integer \<^verbatim>\<open>day\<close> is converted
  to an IEEE double, multiplied by the double nearest to the literal, and the product is
  rounded to a double again before \<^verbatim>\<open>int\<close> truncates it towards zero.  A positive double is
  kept as a pair \<open>(m, s)\<close> standing for \<open>m / 2 ^ s\<close>; rounding is to 53 significant bits,
  ties to even.  (Overflow to infinity needs \<open>\<bar>day\<bar>\<close> near \<open>2 ^ 1024\<close>; the constructor
  below fails on its date arithmetic long before.)
\<close>

definition round_half_even :: "nat \<Rightarrow> nat \<Rightarrow> nat" where
  "round_half_even n d =
     (let q = n div d; r = n mod d
      in if d < 2 * r \<or> (2 * r = d \<and> odd q) then q + 1 else q)"

definition round53 :: "nat \<Rightarrow> nat" where
  "round53 n = (let k = floorlog 2 n - 53 in round_half_even n (2 ^ k) * 2 ^ k)"

definition float_lit :: "nat \<Rightarrow> nat \<Rightarrow> nat \<times> nat" where
  "float_lit p q =
     (let s0 = 53 + floorlog 2 q - floorlog 2 p;
          s = (if q * 2 ^ 53 \<le> p * 2 ^ s0 then s0 - 1 else s0)
      in (round_half_even (p * 2 ^ s) q, s))"

definition int_times_float :: "int \<Rightarrow> nat \<times> nat \<Rightarrow> int" where
  "int_times_float day c =
     (let fd = round53 (nat \<bar>day\<bar>);
          p = round53 (fd * fst c)
      in sgn day * int (p div 2 ^ snd c))"

subsection \<open>Dates\<close>

text \<open>
  A \<^verbatim>\<open>datetime\<close> is kept as the proleptic Gregorian ordinal of its date and the hour of
  the day (minutes and seconds are zero in every datetime the generator builds).
  \<^verbatim>\<open>mil_dtg\<close> only formats a datetime with \<^verbatim>\<open>strftime\<close>; the model keeps the datetime
  that is formatted.  Adding a \<^verbatim>\<open>timedelta\<close> raises \<^verbatim>\<open>OverflowError\<close> when the
  timedelta has more than 999999999 days or the result leaves the years 1 to 9999.
\<close>

type_synonym datetime = "int \<times> int"

definition days_before_year :: "int \<Rightarrow> int" where
  "days_before_year y = (y - 1) * 365 + (y - 1) div 4 - (y - 1) div 100 + (y - 1) div 400"

definition MAXORDINAL :: int where
  "MAXORDINAL = days_before_year 10000"

definition BASE_DATE :: datetime where
  "BASE_DATE = (days_before_year 2026 + 20, 6)"

definition plus_days :: "datetime \<Rightarrow> int \<Rightarrow> py_error + datetime" where
  "plus_days dt n =
     (if 999999999 < \<bar>n\<bar> then Inl OverflowError
      else if 0 < fst dt + n \<and> fst dt + n \<le> MAXORDINAL then Inr (fst dt + n, snd dt)
      else Inl OverflowError)"

definition plus_hours :: "datetime \<Rightarrow> int \<Rightarrow> py_error + datetime" where
  "plus_hours dt h =
     (let t = snd dt + h; ord = fst dt + t div 24
      in if 999999999 < \<bar>h div 24\<bar> then Inl OverflowError
         else if 0 < ord \<and> ord \<le> MAXORDINAL then Inr (ord, t mod 24)
         else Inl OverflowError)"

definition day_date :: "int \<Rightarrow> py_error + datetime" where
  "day_date day_offset = plus_days BASE_DATE day_offset"

section \<open>Configuration and phase resolution\<close>

record phase_info =
  ph_name :: string
  ph_start :: int
  ph_end :: int
  ph_label :: string

definition PHASES :: "(int \<times> phase_info) list" where
  "PHASES =
    [(1, \<lparr>ph_name = ''Shape'', ph_start = 0, ph_end = 30, ph_label = ''I''\<rparr>),
     (2, \<lparr>ph_name = ''Train and Secure'', ph_start = 31, ph_end = 120, ph_label = ''II''\<rparr>),
     (3, \<lparr>ph_name = ''Operate and Expand'', ph_start = 121, ph_end = 270, ph_label = ''III''\<rparr>),
     (4, \<lparr>ph_name = ''Transition'', ph_start = 271, ph_end = 999, ph_label = ''IV''\<rparr>)]"

definition CCIR_INTERVAL :: int where
  "CCIR_INTERVAL = 3"

definition PIR_INTERVAL :: int where
  "PIR_INTERVAL = 3"

fun get_phase_loop :: "(int \<times> phase_info) list \<Rightarrow> int \<Rightarrow> int" where
  "get_phase_loop [] day = 4"
| "get_phase_loop ((phase_num, info) # rest) day =
     (if ph_start info \<le> day \<and> day \<le> ph_end info then phase_num
      else get_phase_loop rest day)"

definition get_phase :: "int \<Rightarrow> int" where
  "get_phase day = get_phase_loop PHASES day"

definition get_phase_info :: "int \<Rightarrow> py_error + phase_info" where
  "get_phase_info day =
     (case map_of PHASES (get_phase day) of None \<Rightarrow> Inl KeyError | Some info \<Rightarrow> Inr info)"

definition is_phase_transition :: "int \<Rightarrow> bool" where
  "is_phase_transition day = list_ex (\<lambda>(phase_num, info). ph_start info = day) PHASES"

section \<open>The standard library as a parameter\<close>

text \<open>
  The generator draws every random value from the global generator of Python's
  \<^verbatim>\<open>random\<close> module and parses coordinates with the built-in \<^verbatim>\<open>int\<close>.  Neither is
  code of this repository, so both are parameters of the model: \<open>'g\<close> is the type of
  generator states, \<open>seed L n\<close> is the state after \<^verbatim>\<open>random.seed(n)\<close>, and every
  drawing function returns the value drawn together with the next state.
  \<^verbatim>\<open>random.sample\<close> and \<^verbatim>\<open>random.shuffle\<close> pick positions only, so they are given
  on positions: \<open>sample_ix L n k\<close> draws \<open>k\<close> positions of a population of size \<open>n\<close>,
  \<open>shuffle_ix L n\<close> an arrangement of \<open>n\<close> positions, \<open>choice_ix L n\<close> one position.
  \<open>int_of_str L s\<close> is \<^verbatim>\<open>int(s)\<close>, with \<open>None\<close> for \<^verbatim>\<open>ValueError\<close>.
\<close>

record 'g py_lib =
  seed :: "int \<Rightarrow> 'g"
  randint :: "int \<Rightarrow> int \<Rightarrow> 'g \<Rightarrow> int \<times> 'g"
  sample_ix :: "nat \<Rightarrow> nat \<Rightarrow> 'g \<Rightarrow> nat list \<times> 'g"
  shuffle_ix :: "nat \<Rightarrow> 'g \<Rightarrow> nat list \<times> 'g"
  choice_ix :: "nat \<Rightarrow> 'g \<Rightarrow> nat \<times> 'g"
  int_of_str :: "string \<Rightarrow> int option"

text \<open>\<^verbatim>\<open>random.sample(population, k)\<close> raises \<^verbatim>\<open>ValueError\<close> unless \<open>0 \<le> k \<le> len\<close>.\<close>

definition py_sample :: "'g py_lib \<Rightarrow> 'a list \<Rightarrow> int \<Rightarrow> 'g \<Rightarrow> py_error + ('a list \<times> 'g)" where
  "py_sample L population k g =
     (if k < 0 \<or> int (length population) < k then Inl ValueError
      else let (ixs, g') = sample_ix L (length population) (nat k) g
           in Inr (map (\<lambda>i. population ! i) ixs, g'))"

definition py_shuffle :: "'g py_lib \<Rightarrow> 'a list \<Rightarrow> 'g \<Rightarrow> 'a list \<times> 'g" where
  "py_shuffle L xs g =
     (let (ixs, g') = shuffle_ix L (length xs) g in (map (\<lambda>i. xs ! i) ixs, g'))"

text \<open>\<^verbatim>\<open>random.choice(seq)\<close> raises \<^verbatim>\<open>IndexError\<close> on an empty sequence.\<close>

definition py_choice :: "'g py_lib \<Rightarrow> 'a list \<Rightarrow> 'g \<Rightarrow> py_error + ('a \<times> 'g)" where
  "py_choice L xs g =
     (if xs = [] then Inl IndexError
      else let (i, g') = choice_ix L (length xs) g in Inr (xs ! i, g'))"

text \<open>
  What the documentation of \<^verbatim>\<open>random\<close> promises of the drawn values: \<^verbatim>\<open>randint(a, b)\<close>
  lies in \<open>[a, b]\<close>, a sample has \<open>k\<close> distinct positions of the population, a shuffle
  is a rearrangement, a choice is a position of the sequence.
\<close>

definition rng_ok :: "'g py_lib \<Rightarrow> bool" where
  "rng_ok L \<longleftrightarrow>
     (\<forall>a b g. a \<le> b \<longrightarrow> a \<le> fst (randint L a b g) \<and> fst (randint L a b g) \<le> b)
   \<and> (\<forall>n k g. k \<le> n \<longrightarrow>
         length (fst (sample_ix L n k g)) = k \<and> distinct (fst (sample_ix L n k g))
         \<and> set (fst (sample_ix L n k g)) \<subseteq> {..<n})
   \<and> (\<forall>n g. distinct (fst (shuffle_ix L n g)) \<and> set (fst (shuffle_ix L n g)) = {..<n})
   \<and> (\<forall>n g. 0 < n \<longrightarrow> fst (choice_ix L n g) < n)"

subsection \<open>Strings and slices\<close>

text \<open>Decimal formatting as the format specs \<^verbatim>\<open>{x:03d}\<close> and \<^verbatim>\<open>str(x)\<close> do it.\<close>

fun digits :: "nat \<Rightarrow> string" where
  "digits n =
     (if n < 10 then [''0123456789'' ! n]
      else digits (n div 10) @ [''0123456789'' ! (n mod 10)])"

declare digits.simps [simp del]

definition fmt_d :: "nat \<Rightarrow> int \<Rightarrow> string" where
  "fmt_d width x =
     (let ds = digits (nat \<bar>x\<bar>); sign = (if x < 0 then ''-'' else [])
      in sign @ replicate (width - length sign - length ds) (CHR ''0'') @ ds)"

text \<open>
  \<^verbatim>\<open>str.split()\<close> without arguments: split at runs of whitespace.  A character of a
  \<open>string\<close> is a code point below 256; the ones \<^verbatim>\<open>str.isspace\<close> accepts there are 9 to
  13, 28 to 32, 133 (\<^verbatim>\<open>U+0085\<close>) and 160 (\<^verbatim>\<open>U+00A0\<close>).
\<close>

definition is_space :: "char \<Rightarrow> bool" where
  "is_space c \<longleftrightarrow>
     (let n = (of_char c :: nat)
      in (9 \<le> n \<and> n \<le> 13) \<or> (28 \<le> n \<and> n \<le> 32) \<or> n = 133 \<or> n = 160)"

fun split_words :: "string \<Rightarrow> string \<Rightarrow> string list" where
  "split_words w [] = (if w = [] then [] else [w])"
| "split_words w (c # cs) =
     (if is_space c then (if w = [] then split_words [] cs else w # split_words [] cs)
      else split_words (w @ [c]) cs)"

definition py_split :: "string \<Rightarrow> string list" where
  "py_split s = split_words [] s"

text \<open>Slices \<^verbatim>\<open>xs[:n]\<close> and \<^verbatim>\<open>xs[n:]\<close>; a negative bound counts from the end.\<close>

definition slice_to :: "'a list \<Rightarrow> int \<Rightarrow> 'a list" where
  "slice_to xs n = (if n < 0 then take (nat (int (length xs) + n)) xs else take (nat n) xs)"

definition slice_from :: "'a list \<Rightarrow> int \<Rightarrow> 'a list" where
  "slice_from xs n = (if n < 0 then drop (nat (int (length xs) + n)) xs else drop (nat n) xs)"

section \<open>Scenario data pools\<close>

text \<open>
  The catalog tuples of the source, in the source's order.  A target is
  \<open>(id, name, category, base MGRS, CDE, available from day)\<close>, an event is
  \<open>(first day, last day, text, impact type)\<close>, a mission type is
  \<open>(callsign, aircraft, unit, mission type)\<close>.
\<close>

type_synonym target = "string \<times> string \<times> string \<times> string \<times> string \<times> int"

type_synonym event = "int \<times> int \<times> string \<times> string"

type_synonym mission_type = "string \<times> string \<times> string \<times> string"

fun tgt_id :: "target \<Rightarrow> string" where
  "tgt_id (i, n, c, m, cde, a) = i"

fun tgt_name :: "target \<Rightarrow> string" where
  "tgt_name (i, n, c, m, cde, a) = n"

fun tgt_cat :: "target \<Rightarrow> string" where
  "tgt_cat (i, n, c, m, cde, a) = c"

fun tgt_mgrs :: "target \<Rightarrow> string" where
  "tgt_mgrs (i, n, c, m, cde, a) = m"

fun tgt_cde :: "target \<Rightarrow> string" where
  "tgt_cde (i, n, c, m, cde, a) = cde"

fun tgt_avail :: "target \<Rightarrow> int" where
  "tgt_avail (i, n, c, m, cde, a) = a"

fun ev_min :: "event \<Rightarrow> int" where
  "ev_min (lo, hi, txt, imp) = lo"

fun ev_max :: "event \<Rightarrow> int" where
  "ev_max (lo, hi, txt, imp) = hi"

fun ev_text :: "event \<Rightarrow> string" where
  "ev_text (lo, hi, txt, imp) = txt"

fun ev_impact :: "event \<Rightarrow> string" where
  "ev_impact (lo, hi, txt, imp) = imp"

definition TARGET_POOL :: "target list" where
  "TARGET_POOL =
    [(''SLM-LOG-001'', ''Primary Weapons Cache (Border Region)'', ''LOGISTICS'', ''17R NM 4523 78'', ''LOW'', 0),
     (''SLM-LOG-002'', ''Cross-Border Smuggling LZ Alpha'', ''LOGISTICS'', ''17R NM 5678 89'', ''LOW'', 0),
     (''SLM-LOG-003'', ''Fuel/Supply Point (Scrubland East)'', ''LOGISTICS'', ''17R NM 4012 72'', ''LOW'', 0),
     (''SLM-LOG-004'', ''IED/Demolitions Workshop'', ''LOGISTICS'', ''17R NM 3678 68'', ''MOD'', 0),
     (''SLM-LOG-005'', ''Safe House Network (Company Town 3)'', ''LOGISTICS'', ''17R NM 3500 71'', ''HIGH'', 0),
     (''SLM-LOG-006'', ''Secondary Weapons Cache (Swamp Edge)'', ''LOGISTICS'', ''17R NM 3100 65'', ''LOW'', 15),
     (''SLM-LOG-007'', ''Smuggling LZ Bravo (Coastal Relay)'', ''LOGISTICS'', ''17R NM 5890 91'', ''LOW'', 10),
     (''SLM-LOG-008'', ''Medical Supply Cache'', ''LOGISTICS'', ''17R NM 3345 69'', ''MOD'', 30),
     (''SLM-LOG-009'', ''Vehicle Staging Area'', ''LOGISTICS'', ''17R NM 4200 74'', ''LOW'', 45),
     (''SLM-LOG-010'', ''Boat Cache (River Junction)'', ''LOGISTICS'', ''17R NM 2800 62'', ''LOW'', 20),
     (''SLM-C2-001'', ''Regional Commander CP (Swamp Central)'', ''C2'', ''17R NM 3456 67'', ''LOW'', 0),
     (''SLM-C2-002'', ''Communications Relay (Hill 247)'', ''C2'', ''17R NM 3890 70'', ''LOW'', 0),
     (''SLM-C2-003'', ''Finance/Funding Cell (Arcadia)'', ''C2'', ''17R NM 3210 65'', ''HIGH'', 0),
     (''SLM-C2-004'', ''Alternate CP (Scrubland North)'', ''C2'', ''17R NM 3780 72'', ''LOW'', 40),
     (''SLM-C2-005'', ''Courier Network Hub'', ''C2'', ''17R NM 3560 68'', ''MOD'', 25),
     (''SLM-INF-001'', ''Propaganda Media Center (Arcadia Urban)'', ''INFO OPS'', ''17R NM 3200 65'', ''HIGH'', 0),
     (''SLM-INF-002'', ''Social Media Operations Cell'', ''INFO OPS'', ''17R NM 3250 64'', ''HIGH'', 0),
     (''SLM-INF-003'', ''Underground Print Shop (Company Town 7)'', ''INFO OPS'', ''17R NM 3400 66'', ''MOD'', 20),
     (''SLM-TRN-001'', ''Training Camp Alpha (Deep Swamp)'', ''FORCE'', ''17R NM 2890 62'', ''LOW'', 0),
     (''SLM-TRN-002'', ''Training Camp Bravo (Scrubland West)'', ''FORCE'', ''17R NM 2560 67'', ''LOW'', 0),
     (''SLM-TRN-003'', ''Recruit Assembly Point (Lake Region)'', ''FORCE'', ''17R NM 2700 64'', ''LOW'', 35),
     (''SLM-SAB-001'', ''Corridor Sabotage Cell (KM 30-50)'', ''FORCE'', ''17R NM 3900 75'', ''LOW'', 5),
     (''SLM-SAB-002'', ''Corridor Sabotage Cell (KM 80-100)'', ''FORCE'', ''17R NM 4100 78'', ''LOW'', 5),
     (''SLM-SAB-003'', ''Bridge Assault Team (Rio Verde Bridge)'', ''FORCE'', ''17R NM 4300 80'', ''MOD'', 15),
     (''SLM-MAR-001'', ''Port Manatee Sleeper Cell'', ''FORCE'', ''17R NM 5500 88'', ''HIGH'', 30),
     (''SLM-CYB-001'', ''Cyber Operations Cell (Unknown Location)'', ''C2'', ''17R NM 3200 65'', ''HIGH'', 60)]"

definition MISSION_TYPES_ISR :: "mission_type list" where
  "MISSION_TYPES_ISR =
    [(''SHADOW'', ''MQ-1C'', ''UAS PLT/SOTF-K'', ''ISR''),
     (''RAVEN'', ''RQ-20B'', ''SOTF-C'', ''ISR''),
     (''PUMA'', ''RQ-11B'', ''CATF'', ''ISR''),
     (''SCAN EAGLE'', ''RQ-21A'', ''SOTF-K'', ''ISR'')]"

definition MISSION_TYPES_SUPPORT :: "mission_type list" where
  "MISSION_TYPES_SUPPORT =
    [(''DUSTOFF'', ''UH-60M'', ''MEDEVAC DET'', ''MEDEVAC''),
     (''ATLAS'', ''C-146A'', ''AFSOC DET'', ''AIRLIFT''),
     (''TALON'', ''MC-130J'', ''AFSOC DET'', ''INFILTRATION''),
     (''NIGHTHAWK'', ''MH-60M'', ''160th SOAR DET'', ''ASSAULT SUPPORT'')]"

definition ISR_AREAS :: "string list" where
  "ISR_AREAS =
    [''CORRIDOR NORTH (COR-N)'',
     ''CORRIDOR SOUTH (COR-S)'',
     ''SWAMP CENTRAL (SWP-C)'',
     ''BORDER EAST (BDR-E)'',
     ''BORDER WEST (BDR-W)'',
     ''ARCADIA URBAN (ARC-U)'',
     ''PORT MANATEE APPROACH (PM-A)'',
     ''SCRUBLAND NORTH (SCR-N)'',
     ''SCRUBLAND SOUTH (SCR-S)'',
     ''LAKE REGION (LK-R)'',
     ''RIVER JUNCTION (RVR-J)'',
     ''COMPANY TOWN CLUSTER (CT-C)'']"

definition EVENTS_POOL :: "event list" where
  "EVENTS_POOL =
    [(1, 5, ''SLM propaganda leaflets distributed in Company Town 2'', ''INFO''),
     (2, 8, ''HNSF tip-line reports SLM movement near KM 45 of corridor'', ''INTEL''),
     (3, 10, ''Small arms fire exchanged between HNSF patrol and SLM cell near the swamp edge'', ''CONTACT''),
     (5, 15, ''IED discovered and neutralized on rail line at KM 67'', ''SABOTAGE''),
     (7, 20, ''SLM propaganda video posted on social media showing staged attack'', ''INFO''),
     (8, 25, ''HUMINT source reports SLM planning meeting in Scrubland East'', ''INTEL''),
     (10, 30, ''Cross-border smuggling boat interdicted by HNSF Border Guard; weapons recovered'', ''INTERDICTION''),
     (12, 35, ''CA team conducts well-digging project in Company Town 4; positive reception'', ''CIVIL''),
     (15, 40, ''SLM ambush of CSG patrol near KM 92; 2x HNSF WIA, SLM repelled'', ''CONTACT''),
     (18, 50, ''Radio Solara Libre begins broadcasting; initial listener metrics positive'', ''INFO''),
     (20, 55, ''First SLM defector surrenders via amnesty program; debriefed by J-2'', ''INTEL''),
     (25, 60, ''CUAS system detects and defeats hostile drone near Camp Citrus'', ''CUAS''),
     (30, 70, ''Swamp Rangers conduct first independent patrol; no contact'', ''HNSF_PROGRESS''),
     (35, 80, ''SLM attacks citrus processing plant in Sector 3; minimal damage'', ''SABOTAGE''),
     (40, 90, ''Second amnesty defector provides SLM OOB information'', ''INTEL''),
     (45, 100, ''CSG interdicts SLM sabotage cell preparing to attack Rio Verde Bridge'', ''INTERDICTION''),
     (50, 110, ''SLM cyber intrusion detected on HNSF email server; isolated and eradicated'', ''CYBER''),
     (60, 130, ''Swamp Rangers clear SLM camp; 12 SLM detained by HNSF'', ''CLEARING''),
     (75, 150, ''SLM corridor attacks decrease 40% from baseline'', ''PROGRESS''),
     (90, 180, ''GoS announces land reform pilot program for Grove Laborers'', ''CIVIL''),
     (100, 200, ''SLM VIPER (supreme commander) communicates frustration to foreign sponsor per SIGINT'', ''INTEL''),
     (120, 240, ''HNSF conducts first fully independent corridor security rotation'', ''HNSF_PROGRESS''),
     (150, 270, ''SLM recruitment rate down estimated 60% per HUMINT'', ''PROGRESS''),
     (200, 300, ''SLM offers ceasefire negotiations through intermediary'', ''DIPLOMATIC''),
     (250, 350, ''GoS Ministry of Information assumes lead for Radio Solara Libre'', ''TRANSITION'')]"

section \<open>Daily state engine\<close>

fun mt_callsign :: "mission_type \<Rightarrow> string" where
  "mt_callsign (c, a, u, t) = c"

fun mt_acft :: "mission_type \<Rightarrow> string" where
  "mt_acft (c, a, u, t) = a"

fun mt_unit :: "mission_type \<Rightarrow> string" where
  "mt_unit (c, a, u, t) = u"

fun mt_type :: "mission_type \<Rightarrow> string" where
  "mt_type (c, a, u, t) = t"

text \<open>
  One ATO line.  The time-on-target string joins one or two formatted datetimes; \<open>tot\<close>
  keeps those datetimes.
\<close>

record mission =
  msn_num :: string
  callsign :: string
  acft :: string
  msn_unit :: string
  msn_type :: string
  target_area :: string
  tot :: "datetime list"
  remarks :: string

text \<open>The attributes that \<^verbatim>\<open>DailyState.__init__\<close> sets, under the source's names.\<close>

record daily_state =
  day :: int
  date :: datetime
  dtg :: datetime
  eff_dtg :: datetime
  end_dtg :: datetime
  phase :: int
  phase_info :: phase_info
  phase_label :: string
  phase_name :: string
  slm_strength :: int
  hnsf_readiness :: int
  corridor_threat :: int
  popular_support_gos :: int
  tip_line_calls :: int
  amnesty_surrenders :: int
  events :: "event list"
  event_texts :: "string list"
  active_targets :: "target list"
  jiptl_above_cut :: "target list"
  jiptl_below_cut :: "target list"
  ato_missions :: "mission list"
  acm_count :: int
  fscm_count :: int

subsection \<open>The ATO missions of a day (\<^verbatim>\<open>_generate_ato_missions\<close>)\<close>

text \<open>The loop over the ISR areas drawn for the day; \<open>n\<close> is the running \<^verbatim>\<open>msn_num\<close>.\<close>

fun isr_missions ::
  "'g py_lib \<Rightarrow> int \<Rightarrow> datetime \<Rightarrow> string list \<Rightarrow> int \<Rightarrow> 'g
     \<Rightarrow> py_error + (mission list \<times> int \<times> 'g)" where
  "isr_missions L d dt [] n g = Inr ([], n, g)"
| "isr_missions L d dt (area # areas) n g =
     (case py_choice L MISSION_TYPES_ISR g of Inl e \<Rightarrow> Inl e | Inr (platform, g1) \<Rightarrow>
      let (cs, g2) = randint L 1 99 g1;
          (start_hr, g3) = randint L 6 10 g2;
          (dur, g4) = randint L 4 12 g3;
          end_hr = start_hr + dur
      in case plus_hours dt start_hr of Inl e \<Rightarrow> Inl e | Inr start_t \<Rightarrow>
         case plus_hours dt (min end_hr 23) of Inl e \<Rightarrow> Inl e | Inr end_t \<Rightarrow>
         case isr_missions L d dt areas (n + 1) g4 of Inl e \<Rightarrow> Inl e | Inr (ms, n', g5) \<Rightarrow>
           Inr (\<lparr>msn_num = ''ATO-'' @ fmt_d 3 n,
                 callsign = mt_callsign platform @ '' '' @ fmt_d 2 cs,
                 acft = mt_acft platform,
                 msn_unit = mt_unit platform,
                 msn_type = mt_type platform,
                 target_area = area,
                 tot = [start_t, end_t],
                 remarks = ''ISR coverage; ATO Day '' @ fmt_d 3 (d + 1)\<rparr> # ms, n', g5))"

text \<open>The loop over the two standing support missions (MEDEVAC and airlift).\<close>

fun support_missions ::
  "'g py_lib \<Rightarrow> datetime \<Rightarrow> datetime \<Rightarrow> mission_type list \<Rightarrow> int \<Rightarrow> 'g
     \<Rightarrow> mission list \<times> int \<times> 'g" where
  "support_missions L dt end_dt [] n g = ([], n, g)"
| "support_missions L dt end_dt (spt # spts) n g =
     (let (cs, g1) = randint L 1 20 g;
          (ms, n', g2) = support_missions L dt end_dt spts (n + 1) g1
      in (\<lparr>msn_num = ''ATO-'' @ fmt_d 3 n,
            callsign = mt_callsign spt @ '' '' @ fmt_d 2 cs,
            acft = mt_acft spt,
            msn_unit = mt_unit spt,
            msn_type = mt_type spt,
            target_area = ''CAMP CITRUS / JOA-WIDE'',
            tot = [dt, end_dt],
            remarks = (if mt_type spt = ''MEDEVAC'' then ''Standing mission'' else ''Resupply run'')\<rparr>
          # ms, n', g2))"

text \<open>The phase-dependent extra mission, appended from phase 3 on.\<close>

definition extra_mission ::
  "'g py_lib \<Rightarrow> datetime \<Rightarrow> int \<Rightarrow> int \<Rightarrow> 'g \<Rightarrow> py_error + (mission list \<times> 'g)" where
  "extra_mission L dt ph n g =
     (if 3 \<le> ph then
        (case py_choice L (slice_from MISSION_TYPES_SUPPORT 2) g of Inl e \<Rightarrow> Inl e
         | Inr (extra, g1) \<Rightarrow>
           let (cs, g2) = randint L 1 20 g1
           in case py_choice L (slice_to ISR_AREAS 3) g2 of Inl e \<Rightarrow> Inl e
              | Inr (area, g3) \<Rightarrow>
                let (hrs, g4) = randint L 1 6 g3
                in case plus_hours dt hrs of Inl e \<Rightarrow> Inl e
                   | Inr t \<Rightarrow>
                     Inr ([\<lparr>msn_num = ''ATO-'' @ fmt_d 3 n,
                            callsign = mt_callsign extra @ '' '' @ fmt_d 2 cs,
                            acft = mt_acft extra,
                            msn_unit = mt_unit extra,
                            msn_type = mt_type extra,
                            target_area = area,
                            tot = [t],
                            remarks = ''HNSF-led operation support''\<rparr>], g4))
      else Inr ([], g))"

definition generate_ato_missions ::
  "'g py_lib \<Rightarrow> int \<Rightarrow> datetime \<Rightarrow> datetime \<Rightarrow> int \<Rightarrow> 'g \<Rightarrow> py_error + (mission list \<times> 'g)" where
  "generate_ato_missions L d dt end_dt ph g =
     (let (k, g1) = randint L 4 7 g
      in case py_sample L ISR_AREAS (min (int (length ISR_AREAS)) k) g1 of Inl e \<Rightarrow> Inl e
         | Inr (isr_areas_today, g2) \<Rightarrow>
           (case isr_missions L d dt isr_areas_today 1 g2 of Inl e \<Rightarrow> Inl e
            | Inr (isr, n1, g3) \<Rightarrow>
              let (spts, n2, g4) = support_missions L dt end_dt (slice_to MISSION_TYPES_SUPPORT 2) n1 g3
              in case extra_mission L dt ph n2 g4 of Inl e \<Rightarrow> Inl e
                 | Inr (extra, g5) \<Rightarrow> Inr (isr @ spts @ extra, g5)))"

subsection \<open>The constructor, block by block\<close>

text \<open>
  Lines 266 to 271: the six evolving metrics, in the order \<open>slm_strength\<close>,
  \<open>hnsf_readiness\<close>, \<open>corridor_threat\<close>, \<open>popular_support_gos\<close>, \<open>tip_line_calls\<close>,
  \<open>amnesty_surrenders\<close>.
\<close>

definition derive_metrics ::
  "'g py_lib \<Rightarrow> int \<Rightarrow> 'g \<Rightarrow> (int \<times> int \<times> int \<times> int \<times> int \<times> int) \<times> 'g" where
  "derive_metrics L d g0 =
     (let (r1, g1) = randint L (- 100) 100 g0;
          (r2, g2) = randint L (- 5) 5 g1;
          (r3, g3) = randint L (- 1) 1 g2;
          (r4, g4) = randint L (- 3) 3 g3;
          (r5, g5) = randint L (- 5) 10 g4;
          (r6, g6) = randint L (- 2) 3 g5
      in ((max 500 (3000 - int_times_float d (float_lit 65 10) + r1),
           min 95 (35 + int_times_float d (float_lit 18 100) + r2),
           max 1 (10 - int_times_float d (float_lit 2 100) + r3),
           min 80 (30 + int_times_float d (float_lit 14 100) + r4),
           max 0 (int_times_float d (float_lit 8 10) + r5),
           max 0 (int_times_float d (float_lit 15 100) + r6)), g6))"

text \<open>Lines 274 to 276: today's events.\<close>

definition select_events :: "'g py_lib \<Rightarrow> int \<Rightarrow> 'g \<Rightarrow> py_error + (event list \<times> 'g)" where
  "select_events L d g =
     (let evs = filter (\<lambda>e. ev_min e \<le> d \<and> d \<le> ev_max e) EVENTS_POOL
      in if evs \<noteq> [] then
           (let (k, g1) = randint L 1 3 g in py_sample L evs (min (int (length evs)) k) g1)
         else Inr (evs, g))"

text \<open>Lines 280 and 282: the available targets and how many of them are neutralized.\<close>

definition available_targets :: "int \<Rightarrow> target list" where
  "available_targets d = filter (\<lambda>t. tgt_avail t \<le> d) TARGET_POOL"

definition neutralized_count :: "int \<Rightarrow> int" where
  "neutralized_count d =
     min (int (length (available_targets d)) - 5) (int_times_float d (float_lit 3 100))"

text \<open>Lines 284 to 287: the identifiers of the neutralized targets.\<close>

definition draw_neutralized ::
  "'g py_lib \<Rightarrow> target list \<Rightarrow> int \<Rightarrow> 'g \<Rightarrow> py_error + (string list \<times> 'g)" where
  "draw_neutralized L available n g =
     (if 0 < n then
        (case py_sample L available n g of Inl e \<Rightarrow> Inl e
         | Inr (smp, g1) \<Rightarrow> Inr (map tgt_id smp, g1))
      else Inr ([], g))"

text \<open>
  Lines 288 to 294: the active targets in presentation order and the split at the cut
  line, returned as \<open>(active_targets, jiptl_above_cut, jiptl_below_cut)\<close>.
\<close>

definition prioritize ::
  "'g py_lib \<Rightarrow> target list \<Rightarrow> string list \<Rightarrow> 'g
     \<Rightarrow> (target list \<times> target list \<times> target list) \<times> 'g" where
  "prioritize L available neutralized_ids g =
     (let (active, g1) =
            py_shuffle L (filter (\<lambda>t. tgt_id t \<notin> set neutralized_ids) available) g;
          (cut, g2) = randint L 6 10 g1;
          n_above_cut = min (int (length active)) cut
      in ((active, slice_to active n_above_cut, slice_from active n_above_cut), g2))"

definition make_state ::
  "int \<Rightarrow> datetime \<Rightarrow> datetime \<Rightarrow> phase_info \<Rightarrow> int \<times> int \<times> int \<times> int \<times> int \<times> int
     \<Rightarrow> event list \<Rightarrow> target list \<times> target list \<times> target list \<Rightarrow> mission list
     \<Rightarrow> int \<Rightarrow> int \<Rightarrow> daily_state" where
  "make_state d dt end_dt info m evs tg missions acm fscm =
     (case m of (slm, hnsf, threat, support, tips, amnesty) \<Rightarrow>
      case tg of (active, above_cut, below_cut) \<Rightarrow>
        \<lparr>day = d, date = dt, dtg = dt, eff_dtg = dt, end_dtg = end_dt,
         phase = get_phase d, phase_info = info,
         phase_label = ph_label info, phase_name = ph_name info,
         slm_strength = slm, hnsf_readiness = hnsf, corridor_threat = threat,
         popular_support_gos = support, tip_line_calls = tips, amnesty_surrenders = amnesty,
         events = evs, event_texts = map ev_text evs,
         active_targets = active, jiptl_above_cut = above_cut, jiptl_below_cut = below_cut,
         ato_missions = missions, acm_count = acm, fscm_count = fscm\<rparr>)"

text \<open>
  \<^verbatim>\<open>DailyState(day)\<close>, run with the global generator in state \<open>g0\<close>: the state built
  and the generator state it leaves.  \<^verbatim>\<open>random.seed(42 + day)\<close> (line 283) replaces the
  generator state before the neutralized targets are drawn, and \<^verbatim>\<open>random.seed(42)\<close>
  (line 304) replaces it again at the end.
\<close>

definition DailyState :: "'g py_lib \<Rightarrow> int \<Rightarrow> 'g \<Rightarrow> py_error + (daily_state \<times> 'g)" where
  "DailyState L d g0 =
     (case day_date d of Inl e \<Rightarrow> Inl e | Inr dt \<Rightarrow>
      case plus_hours dt 18 of Inl e \<Rightarrow> Inl e | Inr end_dt \<Rightarrow>
      case get_phase_info d of Inl e \<Rightarrow> Inl e | Inr info \<Rightarrow>
      let (m, g1) = derive_metrics L d g0
      in case select_events L d g1 of Inl e \<Rightarrow> Inl e | Inr (evs, g2) \<Rightarrow>
         case draw_neutralized L (available_targets d) (neutralized_count d) (seed L (42 + d))
         of Inl e \<Rightarrow> Inl e | Inr (nids, g3) \<Rightarrow>
         let (tg, g4) = prioritize L (available_targets d) nids g3
         in case generate_ato_missions L d dt end_dt (get_phase d) g4
            of Inl e \<Rightarrow> Inl e | Inr (missions, g5) \<Rightarrow>
            let (acm, g6) = randint L 6 10 g5;
                (fscm, g7) = randint L 5 8 g6
            in Inr (make_state d dt end_dt info m evs tg missions acm fscm, seed L 42))"

section \<open>Document generators\<close>

text \<open>
  A generator renders a \<^verbatim>\<open>.docx\<close> file from the day's state.  The model keeps, for each
  file written, its kind, the number in its file name, the state it was rendered from
  and the part of its content that is drawn or computed while rendering; the fixed
  template text and the file system are left out.
\<close>

datatype doc_kind = OPORD | ROE | FRAGO | ATO | ACO | JIPTL | CCIR | PIR

type_synonym acm_row = "string \<times> string \<times> string \<times> string \<times> string \<times> datetime list \<times> string"

datatype doc_body =
    Templated
  | FragoBody int
  | AcoBody "acm_row list" "string list list"
  | JiptlBody "string list list" "string list list"
  | ReviewBody datetime

record document =
  kind :: doc_kind
  serial :: int
  built_from :: daily_state
  body :: doc_body

text \<open>
  \<^verbatim>\<open>generate_opord\<close> indexes its phase tables with \<^verbatim>\<open>state.phase\<close>; the tables have the
  keys 1 to 4.
\<close>

definition generate_opord :: "daily_state \<Rightarrow> py_error + document" where
  "generate_opord state =
     (if phase state \<in> {1, 2, 3, 4}
      then Inr \<lparr>kind = OPORD, serial = phase state, built_from = state, body = Templated\<rparr>
      else Inl KeyError)"

definition generate_roe :: "daily_state \<Rightarrow> int \<Rightarrow> document" where
  "generate_roe state roe_version =
     \<lparr>kind = ROE, serial = roe_version, built_from = state, body = Templated\<rparr>"

text \<open>Line 568: the FRAGO prints the tip-line calls with a fresh perturbation.\<close>

definition generate_frago :: "'g py_lib \<Rightarrow> daily_state \<Rightarrow> int \<Rightarrow> 'g \<Rightarrow> document \<times> 'g" where
  "generate_frago L state frago_num g =
     (let (r, g1) = randint L (- 3) 3 g
      in (\<lparr>kind = FRAGO, serial = frago_num, built_from = state,
            body = FragoBody (max 0 (tip_line_calls state + r))\<rparr>, g1))"

definition generate_ato :: "daily_state \<Rightarrow> document" where
  "generate_ato state =
     \<lparr>kind = ATO, serial = day state + 1, built_from = state, body = Templated\<rparr>"

subsection \<open>ACO\<close>

definition acm_types :: "string list" where
  "acm_types = [''ROZ'', ''UA'', ''HIDACZ'', ''ACA'']"

definition acm_names :: "string list" where
  "acm_names =
    [''SHADOW NORTH'', ''SHADOW SOUTH'', ''RAVEN CENTRAL'', ''RAVEN BORDER'',
     ''SCAN PORT'', ''CORRIDOR SHIELD'', ''CAMP CITRUS'', ''PUMA URBAN'',
     ''SWAMP OVERWATCH'', ''BORDER WATCH'']"

definition acm_bases :: "(string \<times> string) list" where
  "acm_bases =
    [(''N27 30 00 W081 45 00 / 20nm'', ''SFC-15000ft MSL''),
     (''N27 00 00 W081 30 00 / 20nm'', ''SFC-15000ft MSL''),
     (''N27 15 00 W081 50 00 / 10nm'', ''SFC-1200ft AGL''),
     (''N27 20 00 W081 15 00 / 10nm'', ''SFC-1200ft AGL''),
     (''N27 40 00 W082 30 00 / 15nm'', ''SFC-10000ft MSL''),
     (''N27 00-40 W081 30-W082 30 / 5nm corridor'', ''SFC-5000ft AGL''),
     (''N27 12 00 W081 46 00 / 3nm'', ''SFC-3000ft AGL''),
     (''N27 12 00 W081 46 00 / 5nm'', ''SFC-500ft AGL''),
     (''N27 10 00 W081 55 00 / 12nm'', ''SFC-8000ft MSL''),
     (''N27 25 00 W081 10 00 / 10nm'', ''SFC-5000ft AGL'')]"

definition fscm_data :: "(string \<times> string \<times> string \<times> string) list" where
  "fscm_data =
    [(''NFA'', ''ARCADIA CITY'', ''5km radius Arcadia center'', ''CONTINUOUS''),
     (''NFA'', ''PORT MANATEE'', ''3km radius Port Manatee'', ''CONTINUOUS''),
     (''RFA'', ''CORRIDOR ZONE'', ''5km either side PM corridor'', ''CONTINUOUS''),
     (''NFA'', ''EMBASSY COMPOUND'', ''1km radius U.S. Embassy'', ''CONTINUOUS''),
     (''CFL'', ''BORDER CFL'', ''Along international border'', ''CONTINUOUS''),
     (''NFA'', ''HOSPITAL ZONE'', ''500m radius Arcadia General'', ''CONTINUOUS''),
     (''FFA'', ''SWAMP CLEAR'', ''Designated SLM sanctuary area'', ''ON ORDER''),
     (''RFA'', ''COMPANY TOWN BUFFER'', ''2km radius Company Towns 1-5'', ''CONTINUOUS'')]"

text \<open>
  The loop over the selected ACMs; \<open>idx\<close> counts the rows from 1.  Indexing the name and
  base tables with a position outside them raises \<^verbatim>\<open>IndexError\<close>.
\<close>

fun acm_rows ::
  "'g py_lib \<Rightarrow> daily_state \<Rightarrow> nat list \<Rightarrow> int \<Rightarrow> 'g \<Rightarrow> py_error + (acm_row list \<times> 'g)" where
  "acm_rows L state [] idx g = Inr ([], g)"
| "acm_rows L state (sel # rest) idx g =
     (let acm_type = acm_types ! (sel mod length acm_types)
      in if length acm_names \<le> sel \<or> length acm_bases \<le> sel then Inl IndexError
         else
           case (if acm_type \<in> set [''ROZ'', ''HIDACZ'', ''ACA''] then Inr (''JTF JOC'', g)
                 else py_choice L [''SOTF-C'', ''SOTF-K'', ''SOTF-B'', ''CATF''] g)
           of Inl e \<Rightarrow> Inl e | Inr (ctrl, g1) \<Rightarrow>
           case acm_rows L state rest (idx + 1) g1 of Inl e \<Rightarrow> Inl e | Inr (rows, g2) \<Rightarrow>
             Inr ((''ACM-'' @ fmt_d 2 idx, acm_type, acm_names ! sel,
                   fst (acm_bases ! sel), snd (acm_bases ! sel),
                   (if acm_type \<noteq> ''ACA'' then [eff_dtg state, end_dtg state] else []),
                   ctrl) # rows, g2))"

definition fscm_rows :: "daily_state \<Rightarrow> string list list" where
  "fscm_rows state =
     map (\<lambda>idx. case fscm_data ! idx of (a, b, c, e) \<Rightarrow>
                   [''FSCM-'' @ fmt_d 2 (int idx + 1), a, b, c, e, ''JTF CDR''])
         [0..<nat (min (fscm_count state) (int (length fscm_data)))]"

definition generate_aco :: "'g py_lib \<Rightarrow> daily_state \<Rightarrow> 'g \<Rightarrow> py_error + (document \<times> 'g)" where
  "generate_aco L state g =
     (let g1 = seed L (42 + day state);
          n_acms = min (acm_count state) (int (length acm_names))
      in case py_sample L [0..<length acm_names] n_acms g1 of Inl e \<Rightarrow> Inl e
         | Inr (selected, g2) \<Rightarrow>
           (case acm_rows L state selected 1 g2 of Inl e \<Rightarrow> Inl e
            | Inr (rows, g3) \<Rightarrow>
              Inr (\<lparr>kind = ACO, serial = day state + 1, built_from = state,
                    body = AcoBody rows (fscm_rows state)\<rparr>, seed L 42)))"

subsection \<open>JIPTL\<close>

text \<open>
  \<^verbatim>\<open>jitter_mgrs\<close>.  Inside the \<^verbatim>\<open>try\<close> block only \<^verbatim>\<open>int\<close> can raise, and its
  \<^verbatim>\<open>ValueError\<close> is caught: the function then falls through to \<^verbatim>\<open>return base_mgrs\<close>.
  When the first coordinate parses and the second does not, the first \<^verbatim>\<open>randint\<close> has
  been drawn already.
\<close>

definition jitter_mgrs :: "'g py_lib \<Rightarrow> string \<Rightarrow> 'g \<Rightarrow> string \<times> 'g" where
  "jitter_mgrs L base_mgrs g =
     (let parts = py_split base_mgrs
      in if 4 \<le> length parts then
           (case int_of_str L (parts ! 2) of None \<Rightarrow> (base_mgrs, g)
            | Some e0 \<Rightarrow>
              let (r1, g1) = randint L (- 50) 50 g
              in case int_of_str L (parts ! 3) of None \<Rightarrow> (base_mgrs, g1)
                 | Some n0 \<Rightarrow>
                   let (r2, g2) = randint L (- 50) 50 g1
                   in (parts ! 0 @ '' '' @ parts ! 1 @ '' '' @ fmt_d 4 (e0 + r1)
                         @ '' '' @ fmt_d 2 (n0 + r2), g2))
         else (base_mgrs, g))"

definition effects :: "string list" where
  "effects =
    [''DESTROY'', ''NEUTRALIZE'', ''DENY'', ''DISRUPT'', ''DISRUPT (NON-LETHAL)'', ''DEGRADE'']"

definition nominators :: "string list" where
  "nominators = [''SOTF-C'', ''SOTF-K'', ''SOTF-B'', ''MISTF'', ''CATF'', ''J-2'']"

definition objectives :: "string list" where
  "objectives =
    [''OBJ 1: Secure Corridor'', ''OBJ 2: Neutralize SLM'', ''OBJ 3: Counter SLM'',
     ''OBJ 4: Isolate'']"

text \<open>The rows above the cut line; \<open>pri\<close> is the rank, counted from 1.\<close>

fun above_cut_rows ::
  "'g py_lib \<Rightarrow> target list \<Rightarrow> int \<Rightarrow> 'g \<Rightarrow> py_error + (string list list \<times> 'g)" where
  "above_cut_rows L [] pri g = Inr ([], g)"
| "above_cut_rows L (tgt # rest) pri g =
     (let (loc, g1) = jitter_mgrs L (tgt_mgrs tgt) g
      in case (if tgt_cat tgt \<noteq> ''INFO OPS'' then py_choice L (slice_to effects 4) g1
               else Inr (''DISRUPT (NON-LETHAL)'', g1))
         of Inl e \<Rightarrow> Inl e | Inr (eff, g2) \<Rightarrow>
         case py_choice L nominators g2 of Inl e \<Rightarrow> Inl e | Inr (nom, g3) \<Rightarrow>
         case py_choice L objectives g3 of Inl e \<Rightarrow> Inl e | Inr (obj, g4) \<Rightarrow>
         case above_cut_rows L rest (pri + 1) g4 of Inl e \<Rightarrow> Inl e | Inr (rows, g5) \<Rightarrow>
           Inr ([fmt_d 0 pri, tgt_id tgt, tgt_name tgt, tgt_cat tgt, loc, eff, tgt_cde tgt,
                 nom, obj, ''NOMINATED''] # rows, g5))"

text \<open>The rows below the cut line, ranked on from the rows above.\<close>

fun below_cut_rows ::
  "'g py_lib \<Rightarrow> target list \<Rightarrow> int \<Rightarrow> 'g \<Rightarrow> py_error + (string list list \<times> 'g)" where
  "below_cut_rows L [] pri g = Inr ([], g)"
| "below_cut_rows L (tgt # rest) pri g =
     (let (loc, g1) = jitter_mgrs L (tgt_mgrs tgt) g
      in case py_choice L effects g1 of Inl e \<Rightarrow> Inl e | Inr (eff, g2) \<Rightarrow>
         case py_choice L nominators g2 of Inl e \<Rightarrow> Inl e | Inr (nom, g3) \<Rightarrow>
         case py_choice L objectives g3 of Inl e \<Rightarrow> Inl e | Inr (obj, g4) \<Rightarrow>
         case below_cut_rows L rest (pri + 1) g4 of Inl e \<Rightarrow> Inl e | Inr (rows, g5) \<Rightarrow>
           Inr ([fmt_d 0 pri, tgt_id tgt, tgt_name tgt, tgt_cat tgt, loc, eff, tgt_cde tgt,
                 nom, obj, ''BELOW CUT''] # rows, g5))"

definition generate_jiptl :: "'g py_lib \<Rightarrow> daily_state \<Rightarrow> 'g \<Rightarrow> py_error + (document \<times> 'g)" where
  "generate_jiptl L state g =
     (let g1 = seed L (42 + day state)
      in case above_cut_rows L (jiptl_above_cut state) 1 g1 of Inl e \<Rightarrow> Inl e
         | Inr (rows_above, g2) \<Rightarrow>
           (case below_cut_rows L (jiptl_below_cut state)
                   (int (length (jiptl_above_cut state)) + 1) g2
            of Inl e \<Rightarrow> Inl e
            | Inr (rows_below, g3) \<Rightarrow>
              Inr (\<lparr>kind = JIPTL, serial = day state + 1, built_from = state,
                    body = JiptlBody rows_above rows_below\<rparr>, seed L 42)))"

subsection \<open>CCIR and PIR\<close>

text \<open>Both print the next review date, \<^verbatim>\<open>state.date + timedelta(days=INTERVAL)\<close>.\<close>

definition generate_ccir :: "daily_state \<Rightarrow> int \<Rightarrow> py_error + document" where
  "generate_ccir state ccir_num =
     (case plus_days (date state) CCIR_INTERVAL of Inl e \<Rightarrow> Inl e
      | Inr next_review \<Rightarrow>
        Inr \<lparr>kind = CCIR, serial = ccir_num, built_from = state, body = ReviewBody next_review\<rparr>)"

definition generate_pir :: "daily_state \<Rightarrow> int \<Rightarrow> py_error + document" where
  "generate_pir state pir_num =
     (case plus_days (date state) PIR_INTERVAL of Inl e \<Rightarrow> Inl e
      | Inr next_review \<Rightarrow>
        Inr \<lparr>kind = PIR, serial = pir_num, built_from = state, body = ReviewBody next_review\<rparr>)"

section \<open>Main orchestrator\<close>

text \<open>
  The local variables of \<^verbatim>\<open>run\<close>, the output directories it has created, the files
  written so far in the order of writing, and the state of the global generator.
\<close>

record 'g run_state =
  frago_counter :: int
  ccir_counter :: int
  pir_counter :: int
  roe_version :: int
  last_phase :: int
  total_docs :: int
  dirs :: "string list"
  docs :: "document list"
  rng :: 'g

text \<open>One iteration of the loop \<^verbatim>\<open>for day in range(num_days)\<close>.\<close>

definition run_day :: "'g py_lib \<Rightarrow> int \<Rightarrow> 'g run_state \<Rightarrow> py_error + 'g run_state" where
  "run_day L d s =
     (case DailyState L d (rng s) of Inl e \<Rightarrow> Inl e | Inr (state, g1) \<Rightarrow>
      let current_phase = phase state;
          phase_changed = (current_phase \<noteq> last_phase s)
      in case (if phase_changed
               then (case generate_opord state of Inl e \<Rightarrow> Inl e | Inr doc \<Rightarrow> Inr [doc])
               else Inr [])
         of Inl e \<Rightarrow> Inl e | Inr opord \<Rightarrow>
         let roe_v = (if phase_changed then roe_version s + 1 else roe_version s);
             roe = (if phase_changed then [generate_roe state roe_v] else []);
             frago_n = frago_counter s + 1;
             (frago, g2) = generate_frago L state frago_n g1;
             ato = generate_ato state
         in case generate_aco L state g2 of Inl e \<Rightarrow> Inl e | Inr (aco, g3) \<Rightarrow>
            case generate_jiptl L state g3 of Inl e \<Rightarrow> Inl e | Inr (jiptl, g4) \<Rightarrow>
            case (if d mod CCIR_INTERVAL = 0 \<or> phase_changed
                  then (case generate_ccir state (ccir_counter s + 1) of Inl e \<Rightarrow> Inl e
                        | Inr doc \<Rightarrow> Inr ([doc], ccir_counter s + 1))
                  else Inr ([], ccir_counter s))
            of Inl e \<Rightarrow> Inl e | Inr (ccir, ccir_n) \<Rightarrow>
            case (if d mod PIR_INTERVAL = 0 \<or> phase_changed
                  then (case generate_pir state (pir_counter s + 1) of Inl e \<Rightarrow> Inl e
                        | Inr doc \<Rightarrow> Inr ([doc], pir_counter s + 1))
                  else Inr ([], pir_counter s))
            of Inl e \<Rightarrow> Inl e | Inr (pir, pir_n) \<Rightarrow>
              let day_docs = opord @ roe @ [frago, ato, aco, jiptl] @ ccir @ pir
              in Inr \<lparr>frago_counter = frago_n, ccir_counter = ccir_n, pir_counter = pir_n,
                      roe_version = roe_v, last_phase = current_phase,
                      total_docs = total_docs s + int (length day_docs),
                      dirs = dirs s, docs = docs s @ day_docs, rng = g4\<rparr>)"

fun run_days :: "'g py_lib \<Rightarrow> int list \<Rightarrow> 'g run_state \<Rightarrow> py_error + 'g run_state" where
  "run_days L [] s = Inr s"
| "run_days L (d # ds) s =
     (case run_day L d s of Inl e \<Rightarrow> Inl e | Inr s' \<Rightarrow> run_days L ds s')"

text \<open>
  \<^verbatim>\<open>run(num_days, output_root)\<close> with the global generator in state \<open>g\<close>.  The eight
  output directories are created first (named here by their last component), then the
  days \<open>0, \<dots>, num_days - 1\<close> are generated in order; \<^verbatim>\<open>range(num_days)\<close> is empty when
  \<open>num_days \<le> 0\<close>.
\<close>

definition run :: "'g py_lib \<Rightarrow> int \<Rightarrow> 'g \<Rightarrow> py_error + 'g run_state" where
  "run L num_days g =
     run_days L [0..num_days - 1]
       \<lparr>frago_counter = 0, ccir_counter = 0, pir_counter = 0, roe_version = 0,
        last_phase = 0, total_docs = 0,
        dirs = [''OPORD'', ''FRAGO'', ''ATO'', ''ROE'', ''ACO'', ''CCIR'', ''PIR'', ''JIPTL''],
        docs = [], rng = g\<rparr>"

text \<open>
  The script: the module body seeds the global generator with 42 (line 60), and the
  command line passes \<^verbatim>\<open>--days\<close>, parsed with \<^verbatim>\<open>type=int\<close>, straight to \<^verbatim>\<open>run\<close>.
\<close>

definition main :: "'g py_lib \<Rightarrow> int \<Rightarrow> py_error + 'g run_state" where
  "main L days = run L days (seed L 42)"

section \<open>The constructor with two random streams\<close>

text \<open>
  The specification describes the neutralization draw as a local, day-seeded draw that
  leaves the ambient random stream as it was: the neutralized set comes from a stream of
  its own, seeded with \<open>42 + day\<close>, and everything else (metrics, events, the
  presentation-order shuffle, the cut, the missions, the two counts) is drawn from the
  ambient stream, which goes on afterwards.  \<open>DailyState_two_streams\<close> is the
  constructor read that way, built from the same blocks as \<open>DailyState\<close>; it is what
  the source is compared with, not a model of it.
\<close>

definition DailyState_two_streams ::
  "'g py_lib \<Rightarrow> int \<Rightarrow> 'g \<Rightarrow> py_error + (daily_state \<times> 'g)" where
  "DailyState_two_streams L d g0 =
     (case day_date d of Inl e \<Rightarrow> Inl e | Inr dt \<Rightarrow>
      case plus_hours dt 18 of Inl e \<Rightarrow> Inl e | Inr end_dt \<Rightarrow>
      case get_phase_info d of Inl e \<Rightarrow> Inl e | Inr info \<Rightarrow>
      let (m, g1) = derive_metrics L d g0
      in case select_events L d g1 of Inl e \<Rightarrow> Inl e | Inr (evs, g2) \<Rightarrow>
         case draw_neutralized L (available_targets d) (neutralized_count d) (seed L (42 + d))
         of Inl e \<Rightarrow> Inl e | Inr (nids, g_day) \<Rightarrow>
         let (tg, g4) = prioritize L (available_targets d) nids g2
         in case generate_ato_missions L d dt end_dt (get_phase d) g4
            of Inl e \<Rightarrow> Inl e | Inr (missions, g5) \<Rightarrow>
            let (acm, g6) = randint L 6 10 g5;
                (fscm, g7) = randint L 5 8 g6
            in Inr (make_state d dt end_dt info m evs tg missions acm fscm, g7))"

section \<open>A concrete library instance\<close>

text \<open>
  A small deterministic instance of the library parameter, used to run the model on
  concrete inputs: the generator state is a counter, each draw is read off the counter
  and advances it, and \<open>int\<close> is a parser of signed decimal numerals.
\<close>

definition digit_val :: "char \<Rightarrow> nat option" where
  "digit_val c =
     (let n = (of_char c :: nat) in if 48 \<le> n \<and> n \<le> 57 then Some (n - 48) else None)"

fun dec_nat :: "nat \<Rightarrow> string \<Rightarrow> nat option" where
  "dec_nat acc [] = Some acc"
| "dec_nat acc (c # cs) =
     (case digit_val c of None \<Rightarrow> None | Some v \<Rightarrow> dec_nat (10 * acc + v) cs)"

definition dec_int :: "string \<Rightarrow> int option" where
  "dec_int s =
     (case s of [] \<Rightarrow> None
      | c # cs \<Rightarrow>
          if c = CHR ''-'' then (if cs = [] then None else map_option (\<lambda>n. - int n) (dec_nat 0 cs))
          else if c = CHR ''+'' then (if cs = [] then None else map_option int (dec_nat 0 cs))
          else map_option int (dec_nat 0 s))"

definition counter_lib :: "nat py_lib" where
  "counter_lib =
     \<lparr>seed = (\<lambda>n. nat \<bar>n\<bar>),
      randint = (\<lambda>a b g. (a + int (g mod nat (b - a + 1)), Suc g)),
      sample_ix = (\<lambda>n k g. (take k (rotate (g mod n) [0..<n]), g + k)),
      shuffle_ix = (\<lambda>n g. (rotate (g mod n) [0..<n], g + n)),
      choice_ix = (\<lambda>n g. (g mod n, Suc g)),
      int_of_str = dec_int\<rparr>"

section \<open>The cadence rules\<close>

text \<open>
  The scheduling rules as the specification words them: the primary order and the rules
  of engagement are emitted iff the phase changed, the four daily kinds every day, and
  each periodic kind when the day is a multiple of its interval or the phase changed.
  \<open>cadence d prev\<close> lists the kinds emitted on day \<open>d\<close> when \<open>prev\<close> is the phase of the
  previous day; \<open>schedule ds prev\<close> lists kind and day over the days \<open>ds\<close>.  Both are
  what \<open>run\<close> is compared with.
\<close>

definition cadence :: "int \<Rightarrow> int \<Rightarrow> doc_kind list" where
  "cadence d prev =
     (let phase_changed = (get_phase d \<noteq> prev)
      in (if phase_changed then [OPORD, ROE] else [])
         @ [FRAGO, ATO, ACO, JIPTL]
         @ (if d mod CCIR_INTERVAL = 0 \<or> phase_changed then [CCIR] else [])
         @ (if d mod PIR_INTERVAL = 0 \<or> phase_changed then [PIR] else []))"

fun schedule :: "int list \<Rightarrow> int \<Rightarrow> (doc_kind \<times> int) list" where
  "schedule [] prev = []"
| "schedule (d # ds) prev = map (\<lambda>k. (k, d)) (cadence d prev) @ schedule ds (get_phase d)"

section \<open>Rounding is monotone\<close>

lemma round_half_even_one [simp]: "round_half_even n 1 = n" "round_half_even n (Suc 0) = n"
  by (simp_all add: round_half_even_def)

lemma round_half_even_mono:
  assumes "n \<le> n'" "0 < d"
  shows "round_half_even n d \<le> round_half_even n' d"
proof (cases "n div d = n' div d")
  case True
  have "n mod d \<le> n' mod d"
    using assms True by (metis add_le_cancel_left div_mult_mod_eq mult.commute)
  then show ?thesis
    using True by (auto simp: round_half_even_def Let_def)
next
  case False
  with assms have "n div d < n' div d"
    by (simp add: div_le_mono le_neq_implies_less)
  then show ?thesis
    by (auto simp: round_half_even_def Let_def)
qed

lemma round_half_even_bounds:
  "n div d \<le> round_half_even n d \<and> round_half_even n d \<le> n div d + 1"
  by (simp add: round_half_even_def Let_def)

lemma round53_small: "floorlog 2 n \<le> 53 \<Longrightarrow> round53 n = n"
  by (simp add: round53_def Let_def)

lemma round53_bounds:
  assumes "0 < n"
  shows "2 ^ (floorlog 2 n - 1) \<le> round53 n \<and> round53 n \<le> 2 ^ floorlog 2 n"
proof (cases "floorlog 2 n \<le> 53")
  case True
  then show ?thesis
    using floorlog_bounds [of n 2] assms by (simp add: round53_small less_imp_le)
next
  case False
  define b where "b = floorlog 2 n"
  define k where "k = b - 53"
  have b: "53 < b" using False by (simp add: b_def)
  have bk: "b = k + 53" "b - 1 = k + 52" using b by (simp_all add: k_def)
  have fb: "2 ^ (b - 1) \<le> n" "n < 2 ^ b"
    using floorlog_bounds [of n 2] assms by (simp_all add: b_def)
  have lo: "2 ^ 52 \<le> n div 2 ^ k"
  proof -
    have "(2::nat) ^ 52 * 2 ^ k \<le> n" using fb(1) by (simp add: bk power_add mult.commute)
    then show ?thesis by (simp add: less_eq_div_iff_mult_less_eq)
  qed
  have hi: "n div 2 ^ k < 2 ^ 53"
  proof -
    have "n < 2 ^ 53 * 2 ^ k" using fb(2) by (simp add: bk power_add mult.commute)
    then show ?thesis by (simp add: less_mult_imp_div_less)
  qed
  have r: "round53 n = round_half_even n (2 ^ k) * 2 ^ k"
    by (simp add: round53_def k_def b_def Let_def)
  have "2 ^ 52 \<le> round_half_even n (2 ^ k)" "round_half_even n (2 ^ k) \<le> 2 ^ 53"
    using round_half_even_bounds [of n "2 ^ k"] lo hi by linarith+
  then have "2 ^ 52 * 2 ^ k \<le> round53 n" "round53 n \<le> 2 ^ 53 * 2 ^ k"
    unfolding r by (simp_all only: mult_le_mono1)
  then show ?thesis
    by (simp add: b_def [symmetric] bk power_add mult.commute)
qed

lemma round53_mono:
  assumes "n \<le> n'"
  shows "round53 n \<le> round53 n'"
proof (cases "n = 0")
  case True
  then show ?thesis by (simp add: round53_def round_half_even_def)
next
  case False
  then have pos: "0 < n" "0 < n'" using assms by simp_all
  have le: "floorlog 2 n \<le> floorlog 2 n'" using assms by (rule floorlog_mono)
  show ?thesis
  proof (cases "floorlog 2 n = floorlog 2 n'")
    case True
    then show ?thesis
      using round_half_even_mono [OF assms, of "2 ^ (floorlog 2 n' - 53)"]
      by (simp add: round53_def Let_def)
  next
    case False
    with le have "floorlog 2 n \<le> floorlog 2 n' - 1" by simp
    then have "(2::nat) ^ floorlog 2 n \<le> 2 ^ (floorlog 2 n' - 1)"
      by (simp add: power_increasing)
    then show ?thesis
      using round53_bounds [OF pos(1)] round53_bounds [OF pos(2)] by linarith
  qed
qed

lemma int_times_float_nonneg: "0 \<le> d \<Longrightarrow> 0 \<le> int_times_float d c"
  by (simp add: int_times_float_def Let_def sgn_if)

lemma int_times_float_zero [simp]: "int_times_float 0 c = 0"
  by (simp add: int_times_float_def)

lemma int_times_float_mono:
  assumes "0 \<le> d" "d \<le> d'"
  shows "int_times_float d c \<le> int_times_float d' c"
proof (cases "d = 0")
  case True
  then show ?thesis using assms int_times_float_nonneg [of d' c] by simp
next
  case False
  then have s: "sgn d = 1" "sgn d' = 1" using assms by simp_all
  have "round53 (nat \<bar>d\<bar>) \<le> round53 (nat \<bar>d'\<bar>)"
    using assms by (intro round53_mono) simp
  then have "round53 (round53 (nat \<bar>d\<bar>) * fst c) \<le> round53 (round53 (nat \<bar>d'\<bar>) * fst c)"
    by (rule round53_mono [OF mult_le_mono1])
  then show ?thesis
    by (simp add: int_times_float_def Let_def s div_le_mono)
qed

section \<open>Phase resolution is total\<close>

lemma get_phase_cases:
  "get_phase d =
     (if 0 \<le> d \<and> d \<le> 30 then 1 else if 31 \<le> d \<and> d \<le> 120 then 2
      else if 121 \<le> d \<and> d \<le> 270 then 3 else 4)"
  by (simp add: get_phase_def PHASES_def)

lemma get_phase_range: "get_phase d \<in> {1, 2, 3, 4}"
  by (simp add: get_phase_cases)

lemma get_phase_info_defined: "\<exists>info. get_phase_info d = Inr info \<and> (get_phase d, info) \<in> set PHASES"
  using get_phase_range [of d]
  by (auto simp: get_phase_info_def PHASES_def)

text \<open>
  C4.  For every day \<open>d \<ge> 0\<close> the phase lookup returns a declared phase and its phase
  record without raising.  If some declared inclusive range \<open>[start, end]\<close> contains
  \<open>d\<close>, the returned phase is the only one whose range does; if no declared range
  contains \<open>d\<close> (that is, \<open>d > 999\<close>), the returned phase is the last declared one, 4.
\<close>

theorem get_phase_total_and_correct:
  assumes "0 \<le> d"
  shows "(\<exists>info. get_phase_info d = Inr info \<and> (get_phase d, info) \<in> set PHASES)
    \<and> (d \<le> 999 \<longrightarrow>
          (\<forall>p info. (p, info) \<in> set PHASES \<longrightarrow>
             (ph_start info \<le> d \<and> d \<le> ph_end info) = (p = get_phase d)))
    \<and> (999 < d \<longrightarrow>
          (\<forall>p info. (p, info) \<in> set PHASES \<longrightarrow> \<not> (ph_start info \<le> d \<and> d \<le> ph_end info))
          \<and> get_phase d = fst (last PHASES) \<and> get_phase d = 4)"
proof (intro conjI)
  show "\<exists>info. get_phase_info d = Inr info \<and> (get_phase d, info) \<in> set PHASES"
    by (rule get_phase_info_defined)
  show "d \<le> 999 \<longrightarrow>
          (\<forall>p info. (p, info) \<in> set PHASES \<longrightarrow>
             (ph_start info \<le> d \<and> d \<le> ph_end info) = (p = get_phase d))"
    using assms by (auto simp: get_phase_cases PHASES_def)
  show "999 < d \<longrightarrow>
          (\<forall>p info. (p, info) \<in> set PHASES \<longrightarrow> \<not> (ph_start info \<le> d \<and> d \<le> ph_end info))
          \<and> get_phase d = fst (last PHASES) \<and> get_phase d = 4"
    by (auto simp: get_phase_cases PHASES_def)
qed

theorem get_phase_total_and_correct_witness:
  "(0::int) \<le> 45
   \<and> get_phase 45 = 2
   \<and> get_phase_info 45
       = Inr \<lparr>ph_name = ''Train and Secure'', ph_start = 31, ph_end = 120, ph_label = ''II''\<rparr>
   \<and> get_phase 5000 = 4"
proof -
  have h: "(0::int) \<le> 45" by simp
  note t = get_phase_total_and_correct [OF h]
  have "get_phase 45 = 2" "get_phase 5000 = 4"
    by (simp_all add: get_phase_cases)
  moreover from t have "\<exists>info. get_phase_info 45 = Inr info \<and> (get_phase 45, info) \<in> set PHASES"
    by blast
  ultimately show ?thesis
    by (auto simp: PHASES_def)
qed

section \<open>Dates that can be represented\<close>

lemma BASE_DATE_val: "BASE_DATE = (739636, 6)"
  by (simp add: BASE_DATE_def days_before_year_def)

lemma MAXORDINAL_val: "MAXORDINAL = 3652059"
  by (simp add: MAXORDINAL_def days_before_year_def)

lemma day_date_eq:
  "day_date d = (if - 739635 \<le> d \<and> d \<le> 2912423 then Inr (739636 + d, 6) else Inl OverflowError)"
  by (auto simp: day_date_def plus_days_def BASE_DATE_val MAXORDINAL_val)

lemma plus_hours_same_day:
  assumes "0 < ord" "ord \<le> 3652059" "0 \<le> h" "h \<le> 17"
  shows "plus_hours (ord, 6) h = Inr (ord, 6 + h)"
  using assms by (simp add: plus_hours_def Let_def MAXORDINAL_val)

lemma plus_hours_ok:
  assumes "0 < ord" "ord < 3652059" "0 \<le> h" "h \<le> 41"
  shows "\<exists>t. plus_hours (ord, 6) h = Inr t"
proof -
  have "(6 + h) div 24 = 0 \<or> (6 + h) div 24 = 1" using assms by presburger
  moreover have "h div 24 = 0 \<or> h div 24 = 1" using assms by presburger
  ultimately show ?thesis
    using assms by (auto simp: plus_hours_def Let_def MAXORDINAL_val)
qed

lemma plus_hours_18:
  "plus_hours (ord, 6) 18 = (if 0 \<le> ord \<and> ord < 3652059 then Inr (ord + 1, 0) else Inl OverflowError)"
  by (auto simp: plus_hours_def Let_def MAXORDINAL_val)

lemma plus_days_3:
  "plus_days (ord, h) 3 = (if - 3 < ord \<and> ord \<le> 3652056 then Inr (ord + 3, h) else Inl OverflowError)"
  by (auto simp: plus_days_def MAXORDINAL_val)

section \<open>What a well-behaved generator gives\<close>

lemma rng_ok_randint:
  assumes "rng_ok L" "a \<le> b" "randint L a b g = (r, g')"
  shows "a \<le> r \<and> r \<le> b"
  using assms unfolding rng_ok_def by (metis fst_conv)

lemma rng_ok_sample:
  assumes "rng_ok L" "k \<le> n" "sample_ix L n k g = (ixs, g')"
  shows "length ixs = k \<and> distinct ixs \<and> set ixs \<subseteq> {..<n}"
  using assms unfolding rng_ok_def by (metis fst_conv)

lemma rng_ok_shuffle:
  assumes "rng_ok L" "shuffle_ix L n g = (ixs, g')"
  shows "distinct ixs \<and> set ixs = {..<n}"
  using assms unfolding rng_ok_def by (metis fst_conv)

lemma rng_ok_choice:
  assumes "rng_ok L" "0 < n" "choice_ix L n g = (i, g')"
  shows "i < n"
  using assms unfolding rng_ok_def by (metis fst_conv)

lemma py_sample_ok:
  assumes "0 \<le> k" "k \<le> int (length xs)"
  shows "\<exists>ys g'. py_sample L xs k g = Inr (ys, g')"
  using assms by (simp add: py_sample_def split: prod.splits)

lemma py_sample_props:
  assumes "rng_ok L" "py_sample L xs k g = Inr (ys, g')"
  shows "length ys = nat k \<and> set ys \<subseteq> set xs"
proof -
  from assms(2) have k: "0 \<le> k" "k \<le> int (length xs)"
    by (auto simp: py_sample_def split: if_splits)
  from assms(2) k obtain ixs where ix: "sample_ix L (length xs) (nat k) g = (ixs, g')"
    and ys: "ys = map (\<lambda>i. xs ! i) ixs"
    by (auto simp: py_sample_def split: prod.splits)
  from k have "nat k \<le> length xs" by simp
  from rng_ok_sample [OF assms(1) this ix] show ?thesis
    by (auto simp: ys)
qed

lemma py_shuffle_length:
  assumes "rng_ok L" "py_shuffle L xs g = (ys, g')"
  shows "length ys = length xs"
proof -
  from assms(2) obtain ixs where ix: "shuffle_ix L (length xs) g = (ixs, g')"
    and ys: "ys = map (\<lambda>i. xs ! i) ixs"
    by (auto simp: py_shuffle_def split: prod.splits)
  from rng_ok_shuffle [OF assms(1) ix] have "distinct ixs" "set ixs = {..<length xs}"
    by simp_all
  then have "length ixs = length xs"
    by (metis card_lessThan distinct_card)
  then show ?thesis by (simp add: ys)
qed

lemma py_choice_ok:
  assumes "xs \<noteq> []"
  shows "\<exists>x g'. py_choice L xs g = Inr (x, g')"
  using assms by (simp add: py_choice_def split: prod.splits)

section \<open>The blocks of the constructor do not raise on representable days\<close>

lemma isr_missions_ok:
  assumes "rng_ok L" "0 < ord" "ord < 3652059"
  shows "\<exists>ms n' g'. isr_missions L d (ord, 6) areas n g = Inr (ms, n', g')"
proof (induction areas arbitrary: n g)
  case Nil
  show ?case by simp
next
  case (Cons area areas)
  obtain platform g1 where c: "py_choice L MISSION_TYPES_ISR g = Inr (platform, g1)"
    using py_choice_ok [of MISSION_TYPES_ISR L g] by (auto simp: MISSION_TYPES_ISR_def)
  obtain cs g2 where r1: "randint L 1 99 g1 = (cs, g2)" by force
  obtain start_hr g3 where r2: "randint L 6 10 g2 = (start_hr, g3)" by force
  obtain dur g4 where r3: "randint L 4 12 g3 = (dur, g4)" by force
  have b2: "6 \<le> start_hr \<and> start_hr \<le> 10"
    using rng_ok_randint [OF assms(1) _ r2] by simp
  have b3: "4 \<le> dur \<and> dur \<le> 12"
    using rng_ok_randint [OF assms(1) _ r3] by simp
  obtain start_t where p1: "plus_hours (ord, 6) start_hr = Inr start_t"
    using plus_hours_ok [OF assms(2,3), of start_hr] b2 by auto
  obtain end_t where p2: "plus_hours (ord, 6) (min (start_hr + dur) 23) = Inr end_t"
    using plus_hours_ok [OF assms(2,3), of "min (start_hr + dur) 23"] b2 b3 by auto
  obtain ms n' g5 where ih: "isr_missions L d (ord, 6) areas (n + 1) g4 = Inr (ms, n', g5)"
    using Cons.IH by blast
  show ?case
    by (simp add: c r1 r2 r3 p1 p2 ih)
qed

lemma extra_mission_ok:
  assumes "rng_ok L" "0 < ord" "ord < 3652059"
  shows "\<exists>ms g'. extra_mission L (ord, 6) ph n g = Inr (ms, g')"
proof (cases "3 \<le> ph")
  case False
  then show ?thesis by (simp add: extra_mission_def)
next
  case True
  obtain extra g1 where c1: "py_choice L (slice_from MISSION_TYPES_SUPPORT 2) g = Inr (extra, g1)"
    using py_choice_ok [of "slice_from MISSION_TYPES_SUPPORT 2" L g]
    by (auto simp: MISSION_TYPES_SUPPORT_def slice_from_def)
  obtain cs g2 where r1: "randint L 1 20 g1 = (cs, g2)" by force
  obtain area g3 where c2: "py_choice L (slice_to ISR_AREAS 3) g2 = Inr (area, g3)"
    using py_choice_ok [of "slice_to ISR_AREAS 3" L g2]
    by (auto simp: ISR_AREAS_def slice_to_def)
  obtain hrs g4 where r2: "randint L 1 6 g3 = (hrs, g4)" by force
  have b: "1 \<le> hrs \<and> hrs \<le> 6"
    using rng_ok_randint [OF assms(1) _ r2] by simp
  obtain t where p: "plus_hours (ord, 6) hrs = Inr t"
    using plus_hours_ok [OF assms(2,3), of hrs] b by auto
  show ?thesis
    using True by (simp add: extra_mission_def c1 r1 c2 r2 p)
qed

lemma generate_ato_missions_ok:
  assumes "rng_ok L" "0 < ord" "ord < 3652059"
  shows "\<exists>ms g'. generate_ato_missions L d (ord, 6) end_dt ph g = Inr (ms, g')"
proof -
  obtain k g1 where r: "randint L 4 7 g = (k, g1)" by force
  have b: "4 \<le> k \<and> k \<le> 7"
    using rng_ok_randint [OF assms(1) _ r] by simp
  obtain areas g2 where s: "py_sample L ISR_AREAS (min (int (length ISR_AREAS)) k) g1 = Inr (areas, g2)"
    using py_sample_ok [of "min (int (length ISR_AREAS)) k" ISR_AREAS L g1] b by auto
  obtain isr n1 g3 where i: "isr_missions L d (ord, 6) areas 1 g2 = Inr (isr, n1, g3)"
    using isr_missions_ok [OF assms] by blast
  obtain spts n2 g4 where
    sp: "support_missions L (ord, 6) end_dt (slice_to MISSION_TYPES_SUPPORT 2) n1 g3 = (spts, n2, g4)"
    by (metis prod_cases3)
  obtain extra g5 where e: "extra_mission L (ord, 6) ph n2 g4 = Inr (extra, g5)"
    using extra_mission_ok [OF assms] by blast
  show ?thesis
    by (simp add: generate_ato_missions_def r s i sp e)
qed

lemma select_events_ok:
  assumes "rng_ok L"
  shows "\<exists>evs g'. select_events L d g = Inr (evs, g')"
proof -
  define evs where "evs = filter (\<lambda>e. ev_min e \<le> d \<and> d \<le> ev_max e) EVENTS_POOL"
  obtain k g1 where r: "randint L 1 3 g = (k, g1)" by force
  have b: "1 \<le> k \<and> k \<le> 3"
    using rng_ok_randint [OF assms _ r] by simp
  show ?thesis
  proof (cases "evs = []")
    case True
    then show ?thesis by (simp add: select_events_def evs_def [symmetric])
  next
    case False
    then have "0 < length evs" by simp
    then obtain ys g2 where "py_sample L evs (min (int (length evs)) k) g1 = Inr (ys, g2)"
      using py_sample_ok [of "min (int (length evs)) k" evs L g1] b by auto
    then show ?thesis
      using False by (simp add: select_events_def evs_def [symmetric] r)
  qed
qed

lemma neutralized_count_le: "neutralized_count d \<le> int (length (available_targets d)) - 5"
  by (simp add: neutralized_count_def)

lemma draw_neutralized_ok:
  assumes "n \<le> int (length available)"
  shows "\<exists>nids g'. draw_neutralized L available n g = Inr (nids, g')"
proof (cases "0 < n")
  case False
  then show ?thesis by (simp add: draw_neutralized_def)
next
  case True
  then obtain smp g1 where "py_sample L available n g = Inr (smp, g1)"
    using py_sample_ok [of n available L g] assms by auto
  then show ?thesis
    using True by (simp add: draw_neutralized_def)
qed

section \<open>The constructor as a whole\<close>

lemma DailyState_InrD:
  assumes "DailyState L d g0 = Inr (s, g')"
  shows "\<exists>dt end_dt info m g1 evs g2 nids g3 tg g4 missions g5 acm g6 fscm g7.
     day_date d = Inr dt \<and> plus_hours dt 18 = Inr end_dt \<and> get_phase_info d = Inr info
   \<and> derive_metrics L d g0 = (m, g1)
   \<and> select_events L d g1 = Inr (evs, g2)
   \<and> draw_neutralized L (available_targets d) (neutralized_count d) (seed L (42 + d)) = Inr (nids, g3)
   \<and> prioritize L (available_targets d) nids g3 = (tg, g4)
   \<and> generate_ato_missions L d dt end_dt (get_phase d) g4 = Inr (missions, g5)
   \<and> randint L 6 10 g5 = (acm, g6) \<and> randint L 5 8 g6 = (fscm, g7)
   \<and> s = make_state d dt end_dt info m evs tg missions acm fscm \<and> g' = seed L 42"
  using assms
  by (auto simp: DailyState_def split: sum.splits prod.splits)

lemma DailyState_InrI:
  assumes "day_date d = Inr dt" "plus_hours dt 18 = Inr end_dt" "get_phase_info d = Inr info"
    "derive_metrics L d g0 = (m, g1)"
    "select_events L d g1 = Inr (evs, g2)"
    "draw_neutralized L (available_targets d) (neutralized_count d) (seed L (42 + d)) = Inr (nids, g3)"
    "prioritize L (available_targets d) nids g3 = (tg, g4)"
    "generate_ato_missions L d dt end_dt (get_phase d) g4 = Inr (missions, g5)"
    "randint L 6 10 g5 = (acm, g6)" "randint L 5 8 g6 = (fscm, g7)"
  shows "DailyState L d g0 = Inr (make_state d dt end_dt info m evs tg missions acm fscm, seed L 42)"
  using assms by (simp add: DailyState_def)

lemma DailyState_post: "DailyState L d g = Inr (s, g') \<Longrightarrow> g' = seed L 42"
  by (drule DailyState_InrD) blast

lemma DailyState_out_of_range:
  assumes "d < - 739635 \<or> 2912422 < d"
  shows "DailyState L d g = Inl OverflowError"
  using assms by (auto simp: DailyState_def day_date_eq plus_hours_18)

lemma DailyState_ok:
  assumes "rng_ok L" "- 739635 \<le> d" "d \<le> 2912422"
  shows "\<exists>s. DailyState L d g = Inr (s, seed L 42)"
proof -
  have dd: "day_date d = Inr (739636 + d, 6)"
    using assms by (simp add: day_date_eq)
  have ph: "plus_hours (739636 + d, 6) 18 = Inr (739637 + d, 0)"
    using assms by (simp add: plus_hours_18)
  have ok: "0 < 739636 + d" "739636 + d < 3652059"
    using assms by simp_all
  obtain info where gi: "get_phase_info d = Inr info"
    using get_phase_info_defined by blast
  obtain m g1 where dm: "derive_metrics L d g = (m, g1)" by (meson surj_pair)
  obtain evs g2 where se: "select_events L d g1 = Inr (evs, g2)"
    using select_events_ok [OF assms(1)] by blast
  obtain nids g3 where dn:
    "draw_neutralized L (available_targets d) (neutralized_count d) (seed L (42 + d)) = Inr (nids, g3)"
  proof -
    have "neutralized_count d \<le> int (length (available_targets d))"
      using neutralized_count_le [of d] by linarith
    from draw_neutralized_ok [OF this, of L "seed L (42 + d)"] that show ?thesis by blast
  qed
  obtain tg g4 where pr: "prioritize L (available_targets d) nids g3 = (tg, g4)"
    by (meson surj_pair)
  obtain ms g5 where am:
    "generate_ato_missions L d (739636 + d, 6) (739637 + d, 0) (get_phase d) g4 = Inr (ms, g5)"
    using generate_ato_missions_ok [OF assms(1) ok, of d "(739637 + d, 0)" "get_phase d" g4]
    by blast
  obtain acm g6 where r1: "randint L 6 10 g5 = (acm, g6)" by force
  obtain fscm g7 where r2: "randint L 5 8 g6 = (fscm, g7)" by force
  show ?thesis
    using DailyState_InrI [OF dd ph gi dm se dn pr am r1 r2] by blast
qed

lemma make_state_fields [simp]:
  "day (make_state d dt end_dt info m evs tg ms acm fscm) = d"
  "date (make_state d dt end_dt info m evs tg ms acm fscm) = dt"
  "dtg (make_state d dt end_dt info m evs tg ms acm fscm) = dt"
  "eff_dtg (make_state d dt end_dt info m evs tg ms acm fscm) = dt"
  "end_dtg (make_state d dt end_dt info m evs tg ms acm fscm) = end_dt"
  "phase (make_state d dt end_dt info m evs tg ms acm fscm) = get_phase d"
  "events (make_state d dt end_dt info m evs tg ms acm fscm) = evs"
  "ato_missions (make_state d dt end_dt info m evs tg ms acm fscm) = ms"
  "acm_count (make_state d dt end_dt info m evs tg ms acm fscm) = acm"
  "fscm_count (make_state d dt end_dt info m evs tg ms acm fscm) = fscm"
  by (simp_all add: make_state_def split: prod.splits)

lemma make_state_metrics [simp]:
  "slm_strength (make_state d dt end_dt info (a, b, c, e, f, h) evs tg ms acm fscm) = a"
  "hnsf_readiness (make_state d dt end_dt info (a, b, c, e, f, h) evs tg ms acm fscm) = b"
  "corridor_threat (make_state d dt end_dt info (a, b, c, e, f, h) evs tg ms acm fscm) = c"
  "popular_support_gos (make_state d dt end_dt info (a, b, c, e, f, h) evs tg ms acm fscm) = e"
  "tip_line_calls (make_state d dt end_dt info (a, b, c, e, f, h) evs tg ms acm fscm) = f"
  "amnesty_surrenders (make_state d dt end_dt info (a, b, c, e, f, h) evs tg ms acm fscm) = h"
  by (simp_all add: make_state_def split: prod.splits)

lemma make_state_targets [simp]:
  "active_targets (make_state d dt end_dt info m evs (x, y, z) ms acm fscm) = x"
  "jiptl_above_cut (make_state d dt end_dt info m evs (x, y, z) ms acm fscm) = y"
  "jiptl_below_cut (make_state d dt end_dt info m evs (x, y, z) ms acm fscm) = z"
  by (simp_all add: make_state_def split: prod.splits)

section \<open>The counter instance is a well-behaved generator\<close>

lemma counter_lib_simps [simp]:
  "seed counter_lib i = nat \<bar>i\<bar>"
  "randint counter_lib a b g = (a + int (g mod nat (b - a + 1)), Suc g)"
  "sample_ix counter_lib n k g = (take k (rotate (g mod n) [0..<n]), g + k)"
  "shuffle_ix counter_lib n g = (rotate (g mod n) [0..<n], g + n)"
  "choice_ix counter_lib n g = (g mod n, Suc g)"
  "int_of_str counter_lib = dec_int"
  by (simp_all add: counter_lib_def)

lemma counter_lib_ok: "rng_ok counter_lib"
proof -
  have "a \<le> a + int (g mod nat (b - a + 1)) \<and> a + int (g mod nat (b - a + 1)) \<le> b"
    if "a \<le> b" for a b :: int and g :: nat
  proof -
    have "g mod nat (b - a + 1) < nat (b - a + 1)" using that by simp
    then show ?thesis using that by linarith
  qed
  moreover have "set (take k (rotate m [0..<n])) \<subseteq> {..<n}" for k m n
    using set_take_subset [of k "rotate m [0..<n]"] by auto
  ultimately show ?thesis
    by (auto simp: rng_ok_def distinct_take)
qed

section \<open>The two-stream reading of the constructor\<close>

lemma DailyState_two_streams_InrD:
  assumes "DailyState_two_streams L d g0 = Inr (s, g')"
  shows "\<exists>dt end_dt info m g1 evs g2 nids g3 tg g4 missions g5 acm g6 fscm.
     day_date d = Inr dt \<and> plus_hours dt 18 = Inr end_dt \<and> get_phase_info d = Inr info
   \<and> derive_metrics L d g0 = (m, g1)
   \<and> select_events L d g1 = Inr (evs, g2)
   \<and> draw_neutralized L (available_targets d) (neutralized_count d) (seed L (42 + d)) = Inr (nids, g3)
   \<and> prioritize L (available_targets d) nids g2 = (tg, g4)
   \<and> generate_ato_missions L d dt end_dt (get_phase d) g4 = Inr (missions, g5)
   \<and> randint L 6 10 g5 = (acm, g6) \<and> randint L 5 8 g6 = (fscm, g')
   \<and> s = make_state d dt end_dt info m evs tg missions acm fscm"
  using assms
  by (auto simp: DailyState_two_streams_def split: sum.splits prod.splits)

lemma DailyState_two_streams_ok:
  assumes "rng_ok L" "- 739635 \<le> d" "d \<le> 2912422"
  shows "\<exists>s g'. DailyState_two_streams L d g = Inr (s, g')"
proof -
  have dd: "day_date d = Inr (739636 + d, 6)"
    using assms by (simp add: day_date_eq)
  have ph: "plus_hours (739636 + d, 6) 18 = Inr (739637 + d, 0)"
    using assms by (simp add: plus_hours_18)
  have ok: "0 < 739636 + d" "739636 + d < 3652059"
    using assms by simp_all
  obtain info where gi: "get_phase_info d = Inr info"
    using get_phase_info_defined by blast
  obtain m g1 where dm: "derive_metrics L d g = (m, g1)" by (meson surj_pair)
  obtain evs g2 where se: "select_events L d g1 = Inr (evs, g2)"
    using select_events_ok [OF assms(1)] by blast
  obtain nids g3 where dn:
    "draw_neutralized L (available_targets d) (neutralized_count d) (seed L (42 + d)) = Inr (nids, g3)"
  proof -
    have "neutralized_count d \<le> int (length (available_targets d))"
      using neutralized_count_le [of d] by linarith
    from draw_neutralized_ok [OF this, of L "seed L (42 + d)"] that show ?thesis by blast
  qed
  obtain tg g4 where pr: "prioritize L (available_targets d) nids g2 = (tg, g4)"
    by (meson surj_pair)
  obtain ms g5 where am:
    "generate_ato_missions L d (739636 + d, 6) (739637 + d, 0) (get_phase d) g4 = Inr (ms, g5)"
    using generate_ato_missions_ok [OF assms(1) ok, of d "(739637 + d, 0)" "get_phase d" g4]
    by blast
  obtain acm g6 where r1: "randint L 6 10 g5 = (acm, g6)" by force
  obtain fscm g7 where r2: "randint L 5 8 g6 = (fscm, g7)" by force
  show ?thesis
    by (simp add: DailyState_two_streams_def dd ph gi dm se dn pr am r1 r2)
qed

section \<open>Targets that stay active\<close>

lemma length_filter_mono:
  assumes "\<And>x. P x \<Longrightarrow> Q x"
  shows "length (filter P xs) \<le> length (filter Q xs)"
  using assms by (induction xs) auto

lemma available_targets_mono:
  "d \<le> d' \<Longrightarrow> length (available_targets d) \<le> length (available_targets d')"
  unfolding available_targets_def by (rule length_filter_mono) simp

lemma available_targets_day0: "length (available_targets 0) = 12"
  by (simp add: available_targets_def TARGET_POOL_def)

lemma available_targets_ge: "0 \<le> d \<Longrightarrow> 12 \<le> length (available_targets d)"
  using available_targets_mono [of 0 d] by (simp add: available_targets_day0)

lemma target_ids_distinct: "distinct (map tgt_id TARGET_POOL)"
  by (simp add: TARGET_POOL_def)

lemma available_ids_distinct: "distinct (map tgt_id (available_targets d))"
  unfolding available_targets_def by (rule distinct_map_filter [OF target_ids_distinct])

lemma neutralized_count_mono:
  assumes "0 \<le> d" "d \<le> d'"
  shows "neutralized_count d \<le> neutralized_count d'"
  using available_targets_mono [OF assms(2)] int_times_float_mono [OF assms, of "float_lit 3 100"]
  unfolding neutralized_count_def by linarith

lemma length_filter_not_in:
  assumes "distinct (map f xs)"
  shows "length xs - length ys \<le> length (filter (\<lambda>x. f x \<notin> set ys) xs)"
proof -
  let ?hit = "filter (\<lambda>x. f x \<in> set ys) xs"
  have "distinct (map f ?hit)" using assms by (rule distinct_map_filter)
  then have "length ?hit = card (set (map f ?hit))"
    by (metis distinct_card length_map)
  also have "\<dots> \<le> card (set ys)" by (rule card_mono) auto
  also have "\<dots> \<le> length ys" by (rule card_length)
  finally have "length ?hit \<le> length ys" .
  moreover have "length xs = length ?hit + length (filter (\<lambda>x. f x \<notin> set ys) xs)"
    using sum_length_filter_compl [of "\<lambda>x. f x \<in> set ys" xs] by simp
  ultimately show ?thesis by linarith
qed

lemma draw_neutralized_length:
  assumes "rng_ok L" "draw_neutralized L available n g = Inr (nids, g')"
  shows "int (length nids) \<le> max 0 n"
proof (cases "0 < n")
  case False
  with assms(2) show ?thesis by (simp add: draw_neutralized_def)
next
  case True
  with assms(2) obtain smp where s: "py_sample L available n g = Inr (smp, g')"
    and n: "nids = map tgt_id smp"
    by (auto simp: draw_neutralized_def split: sum.splits)
  from py_sample_props [OF assms(1) s] show ?thesis
    using True by (simp add: n)
qed

lemma prioritize_active:
  assumes "prioritize L available nids g = ((active, above_cut, below_cut), g')"
  shows "active = fst (py_shuffle L (filter (\<lambda>t. tgt_id t \<notin> set nids) available) g)"
    and "\<exists>cut. above_cut = slice_to active cut \<and> below_cut = slice_from active cut"
  using assms by (auto simp: prioritize_def Let_def split: prod.splits)

lemma DailyState_targets:
  assumes "DailyState L d g = Inr (s, g')"
  shows "\<exists>nids g3.
      draw_neutralized L (available_targets d) (neutralized_count d) (seed L (42 + d)) = Inr (nids, g3)
    \<and> (active_targets s, jiptl_above_cut s, jiptl_below_cut s)
        = fst (prioritize L (available_targets d) nids g3)"
proof -
  from DailyState_InrD [OF assms] obtain dt end_dt info m evs nids g3 tg g4 missions acm fscm
    where dn: "draw_neutralized L (available_targets d) (neutralized_count d) (seed L (42 + d))
               = Inr (nids, g3)"
      and pr: "prioritize L (available_targets d) nids g3 = (tg, g4)"
      and s: "s = make_state d dt end_dt info m evs tg missions acm fscm"
    by blast
  obtain x y z where tg: "tg = (x, y, z)" by (cases tg) auto
  show ?thesis
    using dn pr by (auto simp: s tg)
qed

lemma DailyState_active_floor:
  assumes "rng_ok L" "0 \<le> d" "DailyState L d g = Inr (s, g')"
  shows "5 \<le> length (active_targets s)"
proof -
  from DailyState_targets [OF assms(3)] obtain nids g3 where
    dn: "draw_neutralized L (available_targets d) (neutralized_count d) (seed L (42 + d))
         = Inr (nids, g3)"
    and pr: "(active_targets s, jiptl_above_cut s, jiptl_below_cut s)
             = fst (prioritize L (available_targets d) nids g3)"
    by blast
  let ?rest = "filter (\<lambda>t. tgt_id t \<notin> set nids) (available_targets d)"
  obtain g4 where "prioritize L (available_targets d) nids g3
      = ((active_targets s, jiptl_above_cut s, jiptl_below_cut s), g4)"
    using pr by (metis prod.collapse)
  from prioritize_active(1) [OF this]
  have "active_targets s = fst (py_shuffle L ?rest g3)" .
  then have len: "length (active_targets s) = length ?rest"
    using py_shuffle_length [OF assms(1), of ?rest g3] by (metis prod.collapse)
  have "int (length nids) \<le> max 0 (neutralized_count d)"
    by (rule draw_neutralized_length [OF assms(1) dn])
  moreover have "12 \<le> length (available_targets d)"
    by (rule available_targets_ge [OF assms(2)])
  moreover have "length (available_targets d) - length nids \<le> length ?rest"
    by (rule length_filter_not_in [OF available_ids_distinct])
  ultimately show ?thesis
    using neutralized_count_le [of d] unfolding len by linarith
qed

section \<open>Properties of the daily state\<close>

lemma DailyState_metrics:
  assumes "DailyState L d g = Inr (s, g')"
  shows "\<exists>g1. derive_metrics L d g =
          ((slm_strength s, hnsf_readiness s, corridor_threat s, popular_support_gos s,
            tip_line_calls s, amnesty_surrenders s), g1)"
proof -
  from DailyState_InrD [OF assms] obtain dt end_dt info m g1 evs tg missions acm fscm
    where dm: "derive_metrics L d g = (m, g1)"
      and s: "s = make_state d dt end_dt info m evs tg missions acm fscm"
    by blast
  obtain a b c e f h where m: "m = (a, b, c, e, f, h)" by (cases m) auto
  show ?thesis by (simp add: s m dm)
qed

lemma derive_metrics_bounds:
  assumes "derive_metrics L d g = ((a, b, c, e, f, h), g')"
  shows "500 \<le> a \<and> b \<le> 95 \<and> 1 \<le> c \<and> e \<le> 80 \<and> 0 \<le> f \<and> 0 \<le> h"
  using assms by (auto simp: derive_metrics_def split: prod.splits)

lemma derive_metrics_threat:
  "fst (snd (snd (fst (derive_metrics L d g)))) =
     max 1 (10 - int_times_float d (float_lit 2 100)
            + fst (randint L (- 1) 1 (snd (randint L (- 5) 5 (snd (randint L (- 100) 100 g))))))"
  by (simp add: derive_metrics_def split: prod.splits)

text \<open>
  Five of the six metrics keep their documented bound on every day and for every
  outcome of the noise; the corridor threat keeps its floor of 1.
\<close>

lemma DailyState_metric_bounds:
  assumes "DailyState L d g = Inr (s, g')"
  shows "500 \<le> slm_strength s \<and> hnsf_readiness s \<le> 95 \<and> 1 \<le> corridor_threat s
       \<and> popular_support_gos s \<le> 80 \<and> 0 \<le> tip_line_calls s \<and> 0 \<le> amnesty_surrenders s"
proof -
  from DailyState_metrics [OF assms] obtain g1 where "derive_metrics L d g
      = ((slm_strength s, hnsf_readiness s, corridor_threat s, popular_support_gos s,
          tip_line_calls s, amnesty_surrenders s), g1)"
    by blast
  from derive_metrics_bounds [OF this] show ?thesis .
qed

lemma int_times_float_002_early:
  assumes "0 \<le> d" "d \<le> 49"
  shows "int_times_float d (float_lit 2 100) = 0"
proof -
  have "int_times_float 49 (float_lit 2 100) = 0" by code_simp
  with int_times_float_mono [OF assms, of "float_lit 2 100"]
    int_times_float_nonneg [OF assms(1), of "float_lit 2 100"]
  show ?thesis by simp
qed

text \<open>
  The ceiling of the corridor threat is not enforced: on each of the first fifty days
  a noise draw of \<open>+1\<close> gives a threat score of 11.
\<close>

lemma corridor_threat_eleven:
  assumes "DailyState L d g = Inr (s, g')" "0 \<le> d" "d \<le> 49"
    and "fst (randint L (- 1) 1 (snd (randint L (- 5) 5 (snd (randint L (- 100) 100 g))))) = 1"
  shows "corridor_threat s = 11"
proof -
  from DailyState_metrics [OF assms(1)] obtain g1 where "derive_metrics L d g
      = ((slm_strength s, hnsf_readiness s, corridor_threat s, popular_support_gos s,
          tip_line_calls s, amnesty_surrenders s), g1)"
    by blast
  then have "corridor_threat s = fst (snd (snd (fst (derive_metrics L d g))))"
    by simp
  then show ?thesis
    by (simp add: derive_metrics_threat assms(4) int_times_float_002_early [OF assms(2,3)])
qed

lemma jitter_mgrs_malformed:
  assumes "length (py_split b) < 4 \<or> int_of_str L (py_split b ! 2) = None
           \<or> int_of_str L (py_split b ! 3) = None"
  shows "fst (jitter_mgrs L b g) = b"
  using assms by (auto simp: jitter_mgrs_def Let_def split: option.splits prod.splits)

lemma DailyState_day_seeded_part:
  assumes "DailyState L d g = Inr (s, h)" "DailyState L d g' = Inr (s', h')"
  shows "active_targets s' = active_targets s \<and> jiptl_above_cut s' = jiptl_above_cut s
       \<and> jiptl_below_cut s' = jiptl_below_cut s
       \<and> ato_missions s' = ato_missions s \<and> acm_count s' = acm_count s
       \<and> fscm_count s' = fscm_count s"
proof -
  from DailyState_InrD [OF assms(1)]
  obtain dt end_dt info m evs nids g3 tg g4 missions g5 acm g6 fscm g7
    where dd: "day_date d = Inr dt" and ph: "plus_hours dt 18 = Inr end_dt"
      and dn: "draw_neutralized L (available_targets d) (neutralized_count d) (seed L (42 + d))
               = Inr (nids, g3)"
      and pr: "prioritize L (available_targets d) nids g3 = (tg, g4)"
      and am: "generate_ato_missions L d dt end_dt (get_phase d) g4 = Inr (missions, g5)"
      and r1: "randint L 6 10 g5 = (acm, g6)" and r2: "randint L 5 8 g6 = (fscm, g7)"
      and s: "s = make_state d dt end_dt info m evs tg missions acm fscm"
    by blast
  from DailyState_InrD [OF assms(2)]
  obtain dt' end_dt' info' m' evs' nids' g3' tg' g4' missions' g5' acm' g6' fscm' g7'
    where dd': "day_date d = Inr dt'" and ph': "plus_hours dt' 18 = Inr end_dt'"
      and dn': "draw_neutralized L (available_targets d) (neutralized_count d) (seed L (42 + d))
               = Inr (nids', g3')"
      and pr': "prioritize L (available_targets d) nids' g3' = (tg', g4')"
      and am': "generate_ato_missions L d dt' end_dt' (get_phase d) g4' = Inr (missions', g5')"
      and r1': "randint L 6 10 g5' = (acm', g6')" and r2': "randint L 5 8 g6' = (fscm', g7')"
      and s': "s' = make_state d dt' end_dt' info' m' evs' tg' missions' acm' fscm'"
    by blast
  from dd dd' have 1: "dt' = dt" by simp
  with ph ph' have 2: "end_dt' = end_dt" by simp
  from dn dn' have 3: "nids' = nids" "g3' = g3" by simp_all
  with pr pr' have 4: "tg' = tg" "g4' = g4" by simp_all
  with am am' 1 2 have 5: "missions' = missions" "g5' = g5" by simp_all
  with r1 r1' have 6: "acm' = acm" "g6' = g6" by simp_all
  with r2 r2' have 7: "fscm' = fscm" by simp
  obtain x y z where tg: "tg = (x, y, z)" by (cases tg) auto
  show ?thesis by (simp add: s s' 4 5 6 7 tg)
qed

lemma DailyState_slm_strength_day0:
  assumes "DailyState counter_lib 0 g = Inr (s, h)"
  shows "slm_strength s = max 500 (2900 + int (g mod 201))"
proof -
  from DailyState_metrics [OF assms] obtain g1 where "derive_metrics counter_lib 0 g
      = ((slm_strength s, hnsf_readiness s, corridor_threat s, popular_support_gos s,
          tip_line_calls s, amnesty_surrenders s), g1)"
    by blast
  then have "slm_strength s = fst (fst (derive_metrics counter_lib 0 g))"
    by simp
  then show ?thesis
    by (simp add: derive_metrics_def split: prod.splits)
qed

text \<open>
  C2, as the specification states it: for every global seed, deriving the Daily State of
  a day twice yields the same metrics, events, target split and missions.  The metrics
  and the events are drawn from the generator as the caller left it, and the constructor
  ends by seeding the generator with 42, whatever the seed was.  With the counter
  generator seeded with 7, the derivation for day 0 gives an opposing-force strength of
  2907 and leaves the generator in the seed-42 state, and the derivation that follows,
  from that state, gives 2942.
\<close>

theorem rederived_differs_for_other_seed_counterexample:
  "map_sum id (slm_strength \<circ> fst) (DailyState counter_lib 0 (seed counter_lib 7)) = Inr 2907
   \<and> map_sum id snd (DailyState counter_lib 0 (seed counter_lib 7)) = Inr (seed counter_lib 42)
   \<and> map_sum id (slm_strength \<circ> fst) (DailyState counter_lib 0 (seed counter_lib 42)) = Inr 2942"
proof -
  obtain s1 where a: "DailyState counter_lib 0 7 = Inr (s1, 42)"
    using DailyState_ok [OF counter_lib_ok, of 0 7] by auto
  obtain s2 where b: "DailyState counter_lib 0 42 = Inr (s2, 42)"
    using DailyState_ok [OF counter_lib_ok, of 0 42] by auto
  have "slm_strength s1 = 2907" "slm_strength s2 = 2942"
    using DailyState_slm_strength_day0 [OF a] DailyState_slm_strength_day0 [OF b]
    by simp_all
  then show ?thesis by (simp add: a b)
qed

text \<open>
  C2, amended.  With the global generator seeded with 42, the seed the program uses,
  deriving the Daily State for a day \<open>d\<close> and then deriving it again yields the same
  state both times: the six metrics, the selected events, the split of the targets at
  the cut line, the missions and every other attribute agree, and so does the generator
  state left behind; for every representable day the derivation succeeds.  In whatever
  state the generator is, two successive derivations agree on what is drawn after the
  day-seeded reseed: the active targets and their split, the missions and the two
  counts.
\<close>

theorem DailyState_rederived_identical:
  "(DailyState L d (seed L 42) = Inr (s1, g1) \<longrightarrow> DailyState L d g1 = Inr (s2, g2) \<longrightarrow>
      s2 = s1 \<and> g2 = g1
    \<and> slm_strength s2 = slm_strength s1 \<and> hnsf_readiness s2 = hnsf_readiness s1
    \<and> corridor_threat s2 = corridor_threat s1
    \<and> popular_support_gos s2 = popular_support_gos s1
    \<and> tip_line_calls s2 = tip_line_calls s1 \<and> amnesty_surrenders s2 = amnesty_surrenders s1
    \<and> events s2 = events s1
    \<and> jiptl_above_cut s2 = jiptl_above_cut s1 \<and> jiptl_below_cut s2 = jiptl_below_cut s1
    \<and> ato_missions s2 = ato_missions s1)
   \<and> (rng_ok L \<longrightarrow> - 739635 \<le> d \<longrightarrow> d \<le> 2912422 \<longrightarrow>
        (\<exists>s. DailyState L d (seed L 42) = Inr (s, seed L 42)))
   \<and> (DailyState L d g = Inr (t1, h1) \<longrightarrow> DailyState L d h1 = Inr (t2, h2) \<longrightarrow>
        h2 = h1
      \<and> active_targets t2 = active_targets t1
      \<and> jiptl_above_cut t2 = jiptl_above_cut t1 \<and> jiptl_below_cut t2 = jiptl_below_cut t1
      \<and> ato_missions t2 = ato_missions t1
      \<and> acm_count t2 = acm_count t1 \<and> fscm_count t2 = fscm_count t1)"
proof (intro conjI impI)
  assume a: "DailyState L d (seed L 42) = Inr (s1, g1)" and b: "DailyState L d g1 = Inr (s2, g2)"
  from DailyState_post [OF a] have "g1 = seed L 42" .
  with a b show "s2 = s1" "g2 = g1" by simp_all
  then show "slm_strength s2 = slm_strength s1" "hnsf_readiness s2 = hnsf_readiness s1"
    "corridor_threat s2 = corridor_threat s1" "popular_support_gos s2 = popular_support_gos s1"
    "tip_line_calls s2 = tip_line_calls s1" "amnesty_surrenders s2 = amnesty_surrenders s1"
    "events s2 = events s1" "jiptl_above_cut s2 = jiptl_above_cut s1"
    "jiptl_below_cut s2 = jiptl_below_cut s1" "ato_missions s2 = ato_missions s1"
    by simp_all
next
  assume "rng_ok L" "- 739635 \<le> d" "d \<le> 2912422"
  then show "\<exists>s. DailyState L d (seed L 42) = Inr (s, seed L 42)"
    by (rule DailyState_ok)
next
  assume a: "DailyState L d g = Inr (t1, h1)" and b: "DailyState L d h1 = Inr (t2, h2)"
  from DailyState_post [OF a] DailyState_post [OF b] show "h2 = h1" by simp
  from DailyState_day_seeded_part [OF a b]
  show "active_targets t2 = active_targets t1" "jiptl_above_cut t2 = jiptl_above_cut t1"
    "jiptl_below_cut t2 = jiptl_below_cut t1"
    "ato_missions t2 = ato_missions t1" "acm_count t2 = acm_count t1"
    "fscm_count t2 = fscm_count t1"
    by simp_all
qed

theorem DailyState_rederived_identical_witness:
  "(case DailyState counter_lib 5 (seed counter_lib 42) of Inl e \<Rightarrow> False
    | Inr (s1, g1) \<Rightarrow>
        (case DailyState counter_lib 5 g1 of Inl e \<Rightarrow> False
         | Inr (s2, g2) \<Rightarrow> s2 = s1 \<and> g2 = g1 \<and> slm_strength s2 = slm_strength s1
             \<and> events s2 = events s1 \<and> jiptl_above_cut s2 = jiptl_above_cut s1
             \<and> ato_missions s2 = ato_missions s1))
   \<and> (case DailyState counter_lib 5 (seed counter_lib 7) of Inl e \<Rightarrow> False
      | Inr (t1, h1) \<Rightarrow>
          (case DailyState counter_lib 5 h1 of Inl e \<Rightarrow> False
           | Inr (t2, h2) \<Rightarrow> h2 = h1 \<and> active_targets t2 = active_targets t1
               \<and> ato_missions t2 = ato_missions t1 \<and> acm_count t2 = acm_count t1))"
proof -
  have r: "- 739635 \<le> (5::int)" "(5::int) \<le> 2912422"
    by simp_all
  from DailyState_rederived_identical
    [where L = counter_lib and d = 5, THEN conjunct2, THEN conjunct1] counter_lib_ok r
  obtain s where a: "DailyState counter_lib 5 (seed counter_lib 42) = Inr (s, seed counter_lib 42)"
    by blast
  obtain t1 where b: "DailyState counter_lib 5 (seed counter_lib 7) = Inr (t1, seed counter_lib 42)"
    using DailyState_ok [OF counter_lib_ok r, of "seed counter_lib 7"] by blast
  from DailyState_rederived_identical
    [where L = counter_lib and d = 5 and ?s1.0 = s and ?g1.0 = "seed counter_lib 42"
       and ?s2.0 = s and ?g2.0 = "seed counter_lib 42", THEN conjunct1] a
  have 1: "slm_strength s = slm_strength s \<and> events s = events s
      \<and> jiptl_above_cut s = jiptl_above_cut s \<and> ato_missions s = ato_missions s"
    by blast
  from DailyState_rederived_identical
    [where L = counter_lib and d = 5 and g = "seed counter_lib 7" and ?t1.0 = t1
       and ?h1.0 = "seed counter_lib 42" and ?t2.0 = s and ?h2.0 = "seed counter_lib 42",
     THEN conjunct2, THEN conjunct2] a b
  have 2: "active_targets s = active_targets t1 \<and> ato_missions s = ato_missions t1
      \<and> acm_count s = acm_count t1"
    by blast
  from 1 2 show ?thesis
    by (simp only: a b sum.case prod.case simp_thms)
qed

text \<open>
  C3, as the specification states it: after the construction the generator is where the
  ambient stream would be had the day-seeded draw used a stream of its own.  With the
  counter generator, day 0 and the generator in state 42 the constructor leaves the
  state 42, the two-stream reading leaves 91.
\<close>

theorem reseed_is_not_restore_counterexample:
  "map_sum id snd (DailyState counter_lib 0 42)
     \<noteq> map_sum id snd (DailyState_two_streams counter_lib 0 42)"
proof -
  obtain s where a: "DailyState counter_lib 0 42 = Inr (s, 42)"
    using DailyState_ok [OF counter_lib_ok, of 0 42] by auto
  obtain s' g' where b: "DailyState_two_streams counter_lib 0 42 = Inr (s', g')"
    using DailyState_two_streams_ok [OF counter_lib_ok, of 0 42] by auto
  from DailyState_two_streams_InrD [OF b]
  obtain dt end_dt m g1 evs g2 nids g3 tg g4 missions g5 acm g6 fscm
    where dd: "day_date 0 = Inr dt" and ph: "plus_hours dt 18 = Inr end_dt"
      and dm: "derive_metrics counter_lib 0 42 = (m, g1)"
      and se: "select_events counter_lib 0 g1 = Inr (evs, g2)"
      and dn: "draw_neutralized counter_lib (available_targets 0) (neutralized_count 0)
                 (seed counter_lib (42 + 0)) = Inr (nids, g3)"
      and pr: "prioritize counter_lib (available_targets 0) nids g2 = (tg, g4)"
      and am: "generate_ato_missions counter_lib 0 dt end_dt (get_phase 0) g4 = Inr (missions, g5)"
      and r1: "randint counter_lib 6 10 g5 = (acm, g6)"
      and r2: "randint counter_lib 5 8 g6 = (fscm, g')"
    by blast
  have dt: "dt = (739636, 6)" using dd by (simp add: day_date_eq)
  have end_dt: "end_dt = (739637, 0)" using ph by (simp add: dt plus_hours_18)
  have g1: "g1 = 48" using dm by (simp add: derive_metrics_def)
  have g2: "g2 = 48" using se by (simp add: select_events_def EVENTS_POOL_def g1)
  have nc: "neutralized_count 0 = 0"
    by (simp add: neutralized_count_def available_targets_day0)
  have nids: "nids = []" using dn by (simp add: draw_neutralized_def nc)
  have "snd (prioritize counter_lib (available_targets 0) [] 48) = 61" by code_simp
  then have g4: "g4 = 61" using pr by (simp add: nids g2)
  have "map_sum id snd (generate_ato_missions counter_lib 0 (739636, 6) (739637, 0) 1 61) = Inr 89"
    by code_simp
  then have g5: "g5 = 89" using am by (simp add: dt end_dt g4 get_phase_cases)
  have "g' = 91" using r1 r2 by (auto simp: g5)
  then show ?thesis by (simp add: a b)
qed

text \<open>
  C3, amended.  The constructor ends by reseeding the global generator with the
  constant 42: whatever the day and whatever state the generator was in before, a
  construction that returns leaves the generator in the state of a fresh
  \<^verbatim>\<open>random.seed(42)\<close>, so the values drawn after it are those drawn after a fresh
  seeding.
\<close>

theorem DailyState_leaves_fresh_seed:
  assumes "DailyState L d g = Inr (s, g')"
  shows "g' = seed L 42"
  using assms by (rule DailyState_post)

theorem DailyState_leaves_fresh_seed_witness:
  "case DailyState counter_lib 200 7 of Inl e \<Rightarrow> False | Inr x \<Rightarrow> snd x = seed counter_lib 42"
proof -
  obtain s where h: "DailyState counter_lib 200 7 = Inr (s, seed counter_lib 42)"
    using DailyState_ok [OF counter_lib_ok, of 200 7] by auto
  from DailyState_leaves_fresh_seed [OF h] show ?thesis by (simp add: h)
qed

text \<open>
  C5.  The number of targets neutralized on a day, \<open>min (|available| - 5)
  (int (day * 0.03))\<close>, does not decrease from a day \<open>d1 \<ge> 0\<close> to a later day \<open>d2\<close>,
  and on every day \<open>d \<ge> 0\<close> the constructed state has at least 5 active targets.
\<close>

theorem neutralized_count_monotone_floor_five:
  "(0 \<le> d1 \<longrightarrow> d1 \<le> d2 \<longrightarrow> neutralized_count d1 \<le> neutralized_count d2)
   \<and> (rng_ok L \<longrightarrow> 0 \<le> d \<longrightarrow> d \<le> 2912422 \<longrightarrow>
        (\<exists>s. DailyState L d g = Inr (s, seed L 42) \<and> 5 \<le> length (active_targets s)))
   \<and> (rng_ok L \<longrightarrow> 0 \<le> d \<longrightarrow> DailyState L d g = Inr (s, g') \<longrightarrow> 5 \<le> length (active_targets s))"
proof (intro conjI impI)
  show "neutralized_count d1 \<le> neutralized_count d2" if "0 \<le> d1" "d1 \<le> d2"
    using that by (rule neutralized_count_mono)
  show "5 \<le> length (active_targets s)" if "rng_ok L" "0 \<le> d" "DailyState L d g = Inr (s, g')"
    using that by (rule DailyState_active_floor)
  show "\<exists>s. DailyState L d g = Inr (s, seed L 42) \<and> 5 \<le> length (active_targets s)"
    if "rng_ok L" "0 \<le> d" "d \<le> 2912422"
  proof -
    from that obtain s0 where s0: "DailyState L d g = Inr (s0, seed L 42)"
      using DailyState_ok [of L d g] by auto
    with DailyState_active_floor [OF that(1,2) s0] show ?thesis by blast
  qed
qed

theorem neutralized_count_monotone_floor_five_witness:
  "neutralized_count 40 \<le> neutralized_count 400
   \<and> (case DailyState counter_lib 400 42 of Inl e \<Rightarrow> False
      | Inr x \<Rightarrow> 5 \<le> length (active_targets (fst x)))"
proof -
  note t = neutralized_count_monotone_floor_five [of 40 400 counter_lib 400 42]
  from t have "neutralized_count 40 \<le> neutralized_count 400" by simp
  moreover from t counter_lib_ok
  obtain s where "DailyState counter_lib 400 42 = Inr (s, seed counter_lib 42)"
    "5 \<le> length (active_targets s)"
    by auto
  ultimately show ?thesis by simp
qed

text \<open>
  C6.  The corridor threat score is meant to stay within 1 to 10 (the comment on line
  268 says so, and the documents print it as a score out of 10), but only its floor is
  enforced.  On day 0, with the counter generator seeded with 42, the noise draw is
  \<open>+1\<close> and the constructed state has a corridor threat of 11.
\<close>

theorem corridor_threat_above_ceiling:
  "map_sum id (corridor_threat \<circ> fst) (DailyState counter_lib 0 42) = Inr 11"
proof -
  obtain s where a: "DailyState counter_lib 0 42 = Inr (s, 42)"
    using DailyState_ok [OF counter_lib_ok, of 0 42] by auto
  have "corridor_threat s = 11"
    by (rule corridor_threat_eleven [OF a]) simp_all
  then show ?thesis by (simp add: a)
qed

section \<open>The presentation-order shuffle\<close>

lemma DailyState_order_explicit:
  assumes "DailyState L d g = Inr (s, h)"
  shows "\<exists>nids g3.
      draw_neutralized L (available_targets d) (neutralized_count d) (seed L (42 + d)) = Inr (nids, g3)
    \<and> active_targets s
        = fst (py_shuffle L (filter (\<lambda>t. tgt_id t \<notin> set nids) (available_targets d)) g3)"
proof -
  from DailyState_targets [OF assms] obtain nids g3 where
    dn: "draw_neutralized L (available_targets d) (neutralized_count d) (seed L (42 + d))
         = Inr (nids, g3)"
    and pr: "(active_targets s, jiptl_above_cut s, jiptl_below_cut s)
             = fst (prioritize L (available_targets d) nids g3)"
    by blast
  obtain g4 where "prioritize L (available_targets d) nids g3
      = ((active_targets s, jiptl_above_cut s, jiptl_below_cut s), g4)"
    using pr by (metis prod.collapse)
  from prioritize_active(1) [OF this] dn show ?thesis by blast
qed

lemma DailyState_order_independent:
  assumes "DailyState L d g = Inr (s, h)" "DailyState L d g' = Inr (s', h')"
  shows "active_targets s' = active_targets s \<and> jiptl_above_cut s' = jiptl_above_cut s
       \<and> jiptl_below_cut s' = jiptl_below_cut s"
proof -
  from DailyState_targets [OF assms(1)] obtain n1 g1 where
    a: "draw_neutralized L (available_targets d) (neutralized_count d) (seed L (42 + d))
        = Inr (n1, g1)"
    and p1: "(active_targets s, jiptl_above_cut s, jiptl_below_cut s)
             = fst (prioritize L (available_targets d) n1 g1)"
    by blast
  from DailyState_targets [OF assms(2)] obtain n2 g2 where
    b: "draw_neutralized L (available_targets d) (neutralized_count d) (seed L (42 + d))
        = Inr (n2, g2)"
    and p2: "(active_targets s', jiptl_above_cut s', jiptl_below_cut s')
             = fst (prioritize L (available_targets d) n2 g2)"
    by blast
  from a b have "n2 = n1" "g2 = g1" by simp_all
  with p1 p2 have "(active_targets s', jiptl_above_cut s', jiptl_below_cut s')
      = (active_targets s, jiptl_above_cut s, jiptl_below_cut s)"
    by simp
  then show ?thesis by simp
qed

text \<open>
  C7, as the specification states it: the survivors are shuffled with the ambient stream,
  as in the two-stream reading.  With the counter generator, day 0 and the generator in
  state 42, the constructor orders the twelve active targets with the stream seeded
  with \<open>42 + 0\<close>, the two-stream reading with the ambient stream after the metric draws,
  and the two orders differ.
\<close>

theorem shuffle_is_not_ambient_counterexample:
  "map_sum id (active_targets \<circ> fst) (DailyState counter_lib 0 42)
     \<noteq> map_sum id (active_targets \<circ> fst) (DailyState_two_streams counter_lib 0 42)"
proof -
  obtain s where a: "DailyState counter_lib 0 42 = Inr (s, 42)"
    using DailyState_ok [OF counter_lib_ok, of 0 42] by auto
  obtain s' g' where b: "DailyState_two_streams counter_lib 0 42 = Inr (s', g')"
    using DailyState_two_streams_ok [OF counter_lib_ok, of 0 42] by auto
  have nc: "neutralized_count 0 = 0"
    by (simp add: neutralized_count_def available_targets_day0)
  have dn: "draw_neutralized counter_lib (available_targets 0) (neutralized_count 0) g = Inr ([], g)"
    for g by (simp add: draw_neutralized_def nc)
  from DailyState_targets [OF a]
  have s: "active_targets s = fst (fst (prioritize counter_lib (available_targets 0) [] 42))"
    by (auto simp: dn dest: arg_cong [where f = fst])
  from DailyState_two_streams_InrD [OF b]
  obtain dt end_dt info m g1 evs g2 nids g3 tg g4 missions acm fscm
    where dm: "derive_metrics counter_lib 0 42 = (m, g1)"
      and se: "select_events counter_lib 0 g1 = Inr (evs, g2)"
      and dn': "draw_neutralized counter_lib (available_targets 0) (neutralized_count 0)
                 (seed counter_lib (42 + 0)) = Inr (nids, g3)"
      and pr: "prioritize counter_lib (available_targets 0) nids g2 = (tg, g4)"
      and s': "s' = make_state 0 dt end_dt info m evs tg missions acm fscm"
    by blast
  have g1: "g1 = 48" using dm by (simp add: derive_metrics_def)
  have g2: "g2 = 48" using se by (simp add: select_events_def EVENTS_POOL_def g1)
  have nids: "nids = []" using dn' by (simp add: dn)
  obtain x y z where tg: "tg = (x, y, z)" by (cases tg) auto
  have t: "active_targets s' = fst (fst (prioritize counter_lib (available_targets 0) [] 48))"
    using pr by (simp add: s' tg nids g2)
  have "map tgt_id (fst (fst (prioritize counter_lib (available_targets 0) [] 42)))
      \<noteq> map tgt_id (fst (fst (prioritize counter_lib (available_targets 0) [] 48)))"
    by code_simp
  then have "active_targets s \<noteq> active_targets s'"
    unfolding s t by auto
  then show ?thesis by (simp add: a b)
qed

text \<open>
  C7, amended.  The presentation-order shuffle of the targets that survive
  neutralization consumes the day-seeded stream: it is drawn from the generator as the
  neutralization draw after \<^verbatim>\<open>random.seed(42 + day)\<close> left it.  The shuffled order and
  the split at the cut line are therefore the same for every state the ambient generator
  may be in when the constructor is called.
\<close>

theorem shuffle_uses_day_seeded_stream:
  assumes "DailyState L d g = Inr (s, h)"
  shows "(\<exists>nids g3.
        draw_neutralized L (available_targets d) (neutralized_count d) (seed L (42 + d))
          = Inr (nids, g3)
      \<and> active_targets s
          = fst (py_shuffle L (filter (\<lambda>t. tgt_id t \<notin> set nids) (available_targets d)) g3))
    \<and> (DailyState L d g' = Inr (s', h') \<longrightarrow>
          active_targets s' = active_targets s \<and> jiptl_above_cut s' = jiptl_above_cut s
          \<and> jiptl_below_cut s' = jiptl_below_cut s)"
  using DailyState_order_explicit [OF assms] DailyState_order_independent [OF assms]
  by blast

theorem shuffle_uses_day_seeded_stream_witness:
  "case (DailyState counter_lib 0 42, DailyState counter_lib 0 7) of
     (Inr x, Inr y) \<Rightarrow> active_targets (fst y) = active_targets (fst x)
   | _ \<Rightarrow> False"
proof -
  obtain s where a: "DailyState counter_lib 0 42 = Inr (s, seed counter_lib 42)"
    using DailyState_ok [OF counter_lib_ok, of 0 42] by auto
  obtain s' where b: "DailyState counter_lib 0 7 = Inr (s', seed counter_lib 42)"
    using DailyState_ok [OF counter_lib_ok, of 0 7] by auto
  from shuffle_uses_day_seeded_stream [OF a, of 7 s' "seed counter_lib 42"] b
  have "active_targets s' = active_targets s" by blast
  then show ?thesis by (simp add: a b)
qed

section \<open>When the derivation raises\<close>

text \<open>
  C8, as the specification states it: the derivation never raises, on any input.  For
  day 3000000 the date \<^verbatim>\<open>BASE_DATE + timedelta(days=day)\<close> lies after the year 9999 and
  the constructor raises \<^verbatim>\<open>OverflowError\<close>.
\<close>

theorem DailyState_raises_counterexample:
  "DailyState counter_lib 3000000 42 = Inl OverflowError"
  by (rule DailyState_out_of_range) simp

text \<open>
  C8, amended.  The derivation raises no exception for any day from \<open>-739635\<close> to
  \<open>2912422\<close>, the days for which the day's date and the following day lie in the years
  1 to 9999, and raises \<^verbatim>\<open>OverflowError\<close> for every other day.  Coordinate jittering
  never raises: for a string with fewer than four whitespace-separated parts, or whose
  third or fourth part \<^verbatim>\<open>int\<close> rejects, it returns the original string unchanged.
\<close>

theorem derivation_raises_only_out_of_range:
  "(rng_ok L \<longrightarrow> - 739635 \<le> d \<longrightarrow> d \<le> 2912422 \<longrightarrow> (\<exists>s. DailyState L d g = Inr (s, seed L 42)))
   \<and> (d < - 739635 \<or> 2912422 < d \<longrightarrow> DailyState L d g = Inl OverflowError)
   \<and> (length (py_split b) < 4 \<or> int_of_str L (py_split b ! 2) = None
        \<or> int_of_str L (py_split b ! 3) = None \<longrightarrow> fst (jitter_mgrs L b g) = b)"
  using DailyState_ok [of L d g] DailyState_out_of_range [of d L g] jitter_mgrs_malformed [of b L g]
  by blast

theorem derivation_raises_only_out_of_range_witness:
  "(case DailyState counter_lib 100 42 of Inl e \<Rightarrow> False | Inr x \<Rightarrow> snd x = 42)
   \<and> DailyState counter_lib (- 800000) 42 = Inl OverflowError
   \<and> fst (jitter_mgrs counter_lib ''17R NM 45x3 78'' 7) = ''17R NM 45x3 78''
   \<and> fst (jitter_mgrs counter_lib ''17R NM 4523'' 7) = ''17R NM 4523''"
proof -
  from derivation_raises_only_out_of_range [of counter_lib 100 42] counter_lib_ok
  obtain s where "DailyState counter_lib 100 42 = Inr (s, seed counter_lib 42)"
    by auto
  then have 1: "case DailyState counter_lib 100 42 of Inl e \<Rightarrow> False | Inr x \<Rightarrow> snd x = 42"
    by simp
  from derivation_raises_only_out_of_range [of counter_lib "- 800000" 42]
  have 2: "DailyState counter_lib (- 800000) 42 = Inl OverflowError" by simp
  have "int_of_str counter_lib (py_split ''17R NM 45x3 78'' ! 2) = None" by code_simp
  with derivation_raises_only_out_of_range [of counter_lib 0 7 "''17R NM 45x3 78''"]
  have 3: "fst (jitter_mgrs counter_lib ''17R NM 45x3 78'' 7) = ''17R NM 45x3 78''" by blast
  have "length (py_split ''17R NM 4523'') < 4" by code_simp
  with derivation_raises_only_out_of_range [of counter_lib 0 7 "''17R NM 4523''"]
  have 4: "fst (jitter_mgrs counter_lib ''17R NM 4523'' 7) = ''17R NM 4523''" by blast
  from 1 2 3 4 show ?thesis by blast
qed

section \<open>The generators\<close>

lemma DailyState_fields:
  assumes "DailyState L d g = Inr (s, g')"
  shows "day s = d" "phase s = get_phase d" "date s = (739636 + d, 6)"
    "- 739635 \<le> d" "d \<le> 2912422"
proof -
  from DailyState_InrD [OF assms] obtain dt end_dt info m evs tg missions acm fscm
    where dd: "day_date d = Inr dt" and ph: "plus_hours dt 18 = Inr end_dt"
      and s: "s = make_state d dt end_dt info m evs tg missions acm fscm"
    by blast
  from dd have dt: "dt = (739636 + d, 6)" and r: "- 739635 \<le> d"
    by (auto simp: day_date_eq split: if_splits)
  from ph have "d \<le> 2912422"
    by (auto simp: dt plus_hours_18 split: if_splits)
  then show "day s = d" "phase s = get_phase d" "date s = (739636 + d, 6)"
    "- 739635 \<le> d" "d \<le> 2912422"
    using r by (simp_all add: s dt)
qed

lemma DailyState_acm_count:
  assumes "rng_ok L" "DailyState L d g = Inr (s, g')"
  shows "6 \<le> acm_count s \<and> acm_count s \<le> 10"
proof -
  from DailyState_InrD [OF assms(2)] obtain dt end_dt info m evs tg missions g5 acm g6 fscm
    where r: "randint L 6 10 g5 = (acm, g6)"
      and s: "s = make_state d dt end_dt info m evs tg missions acm fscm"
    by blast
  from rng_ok_randint [OF assms(1) _ r] show ?thesis by (simp add: s)
qed

lemma generate_opord_ok:
  assumes "phase state = get_phase d"
  shows "generate_opord state
         = Inr \<lparr>kind = OPORD, serial = phase state, built_from = state, body = Templated\<rparr>"
  using assms get_phase_range [of d] by (simp add: generate_opord_def)

lemma acm_rows_ok:
  assumes "\<forall>sel \<in> set sels. sel < 10"
  shows "\<exists>rows g'. acm_rows L state sels idx g = Inr (rows, g')"
  using assms
proof (induction sels arbitrary: idx g)
  case Nil
  show ?case by simp
next
  case (Cons sel sels)
  let ?t = "acm_types ! (sel mod length acm_types)"
  obtain ctrl g1 where c:
    "(if ?t \<in> set [''ROZ'', ''HIDACZ'', ''ACA''] then Inr (''JTF JOC'', g)
      else py_choice L [''SOTF-C'', ''SOTF-K'', ''SOTF-B'', ''CATF''] g) = Inr (ctrl, g1)"
    using py_choice_ok [of "[''SOTF-C'', ''SOTF-K'', ''SOTF-B'', ''CATF'']" L g]
    by (cases "?t \<in> set [''ROZ'', ''HIDACZ'', ''ACA'']") auto
  obtain rows g2 where ih: "acm_rows L state sels (idx + 1) g1 = Inr (rows, g2)"
    using Cons by (meson list.set_intros(2))
  have "sel < 10" using Cons.prems by simp
  then have len: "\<not> (length acm_names \<le> sel \<or> length acm_bases \<le> sel)"
    by (simp add: acm_names_def acm_bases_def)
  show ?case
    using c ih len by (simp add: Let_def del: set_simps)
qed

lemma generate_aco_post:
  assumes "generate_aco L state g = Inr (doc, g')"
  shows "g' = seed L 42 \<and> kind doc = ACO \<and> built_from doc = state"
  using assms by (auto simp: generate_aco_def Let_def split: sum.splits prod.splits)

lemma generate_aco_ok:
  assumes "rng_ok L" "0 \<le> acm_count state"
  shows "\<exists>doc. generate_aco L state g = Inr (doc, seed L 42)"
proof -
  let ?n = "min (acm_count state) (int (length acm_names))"
  have n: "0 \<le> ?n" "?n \<le> int (length [0..<length acm_names])"
    using assms(2) by simp_all
  obtain selected g2 where
    s: "py_sample L [0..<length acm_names] ?n (seed L (42 + day state)) = Inr (selected, g2)"
    using py_sample_ok [OF n, of L "seed L (42 + day state)"] by blast
  from py_sample_props [OF assms(1) s] have "\<forall>sel \<in> set selected. sel < 10"
    by (auto simp: acm_names_def)
  from acm_rows_ok [OF this, of L state 1 g2] obtain rows g3 where
    r: "acm_rows L state selected 1 g2 = Inr (rows, g3)" by blast
  show ?thesis
    by (simp add: generate_aco_def Let_def s r)
qed

lemma above_cut_rows_ok: "\<exists>rows g'. above_cut_rows L tgts pri g = Inr (rows, g')"
proof (induction tgts arbitrary: pri g)
  case Nil
  show ?case by simp
next
  case (Cons tgt rest)
  obtain loc g1 where j: "jitter_mgrs L (tgt_mgrs tgt) g = (loc, g1)" by force
  obtain eff g2 where e:
    "(if tgt_cat tgt \<noteq> ''INFO OPS'' then py_choice L (slice_to effects 4) g1
      else Inr (''DISRUPT (NON-LETHAL)'', g1)) = Inr (eff, g2)"
    using py_choice_ok [of "slice_to effects 4" L g1]
    by (cases "tgt_cat tgt \<noteq> ''INFO OPS''") (auto simp: effects_def slice_to_def)
  obtain nom g3 where n: "py_choice L nominators g2 = Inr (nom, g3)"
    using py_choice_ok [of nominators L g2] by (auto simp: nominators_def)
  obtain obj g4 where ob: "py_choice L objectives g3 = Inr (obj, g4)"
    using py_choice_ok [of objectives L g3] by (auto simp: objectives_def)
  obtain rows g5 where ih: "above_cut_rows L rest (pri + 1) g4 = Inr (rows, g5)"
    using Cons by blast
  show ?case
    using e by (simp add: j n ob ih)
qed

lemma below_cut_rows_ok: "\<exists>rows g'. below_cut_rows L tgts pri g = Inr (rows, g')"
proof (induction tgts arbitrary: pri g)
  case Nil
  show ?case by simp
next
  case (Cons tgt rest)
  obtain loc g1 where j: "jitter_mgrs L (tgt_mgrs tgt) g = (loc, g1)" by force
  obtain eff g2 where e: "py_choice L effects g1 = Inr (eff, g2)"
    using py_choice_ok [of effects L g1] by (auto simp: effects_def)
  obtain nom g3 where n: "py_choice L nominators g2 = Inr (nom, g3)"
    using py_choice_ok [of nominators L g2] by (auto simp: nominators_def)
  obtain obj g4 where ob: "py_choice L objectives g3 = Inr (obj, g4)"
    using py_choice_ok [of objectives L g3] by (auto simp: objectives_def)
  obtain rows g5 where ih: "below_cut_rows L rest (pri + 1) g4 = Inr (rows, g5)"
    using Cons by blast
  show ?case
    by (simp add: j e n ob ih)
qed

lemma generate_jiptl_post:
  assumes "generate_jiptl L state g = Inr (doc, g')"
  shows "g' = seed L 42 \<and> kind doc = JIPTL \<and> built_from doc = state"
  using assms by (auto simp: generate_jiptl_def Let_def split: sum.splits prod.splits)

lemma generate_jiptl_ok: "\<exists>doc. generate_jiptl L state g = Inr (doc, seed L 42)"
proof -
  obtain ra g2 where a:
    "above_cut_rows L (jiptl_above_cut state) 1 (seed L (42 + day state)) = Inr (ra, g2)"
    using above_cut_rows_ok [of L "jiptl_above_cut state" 1 "seed L (42 + day state)"] by blast
  obtain rb g3 where b:
    "below_cut_rows L (jiptl_below_cut state) (int (length (jiptl_above_cut state)) + 1) g2
     = Inr (rb, g3)"
    using below_cut_rows_ok
      [of L "jiptl_below_cut state" "int (length (jiptl_above_cut state)) + 1" g2]
    by blast
  show ?thesis by (simp add: generate_jiptl_def Let_def a b)
qed

lemma generate_frago_fields:
  "kind (fst (generate_frago L state n g)) = FRAGO"
  "built_from (fst (generate_frago L state n g)) = state"
  by (simp_all add: generate_frago_def split: prod.splits)

lemma generate_ccir_ok:
  assumes "date state = (739636 + d, 6)" "- 739635 \<le> d" "d \<le> 2912420"
  shows "generate_ccir state n
         = Inr \<lparr>kind = CCIR, serial = n, built_from = state, body = ReviewBody (739639 + d, 6)\<rparr>"
  using assms by (simp add: generate_ccir_def CCIR_INTERVAL_def plus_days_3)

lemma generate_pir_ok:
  assumes "date state = (739636 + d, 6)" "- 739635 \<le> d" "d \<le> 2912420"
  shows "generate_pir state n
         = Inr \<lparr>kind = PIR, serial = n, built_from = state, body = ReviewBody (739639 + d, 6)\<rparr>"
  using assms by (simp add: generate_pir_def PIR_INTERVAL_def plus_days_3)

section \<open>One day of the run\<close>

lemma run_day_step:
  assumes "rng_ok L" "- 739635 \<le> d" "d \<le> 2912420"
  shows "\<exists>s'. run_day L d s = Inr s'
     \<and> map (\<lambda>x. (kind x, day (built_from x))) (docs s')
         = map (\<lambda>x. (kind x, day (built_from x))) (docs s)
           @ map (\<lambda>k. (k, d)) (cadence d (last_phase s))
     \<and> last_phase s' = get_phase d \<and> rng s' = seed L 42 \<and> dirs s' = dirs s"
proof -
  obtain state where ds: "DailyState L d (rng s) = Inr (state, seed L 42)"
    using DailyState_ok [OF assms(1,2), of "rng s"] assms(3) by auto
  note f = DailyState_fields [OF ds]
  have op: "generate_opord state
            = Inr \<lparr>kind = OPORD, serial = phase state, built_from = state, body = Templated\<rparr>"
    by (rule generate_opord_ok [OF f(2)])
  obtain frago g2 where fr: "generate_frago L state (frago_counter s + 1) (seed L 42) = (frago, g2)"
    by force
  have frk: "kind frago = FRAGO" "built_from frago = state"
    using fr generate_frago_fields [of L state "frago_counter s + 1" "seed L 42"] by simp_all
  obtain aco where ac: "generate_aco L state g2 = Inr (aco, seed L 42)"
    using generate_aco_ok [OF assms(1), of state g2] DailyState_acm_count [OF assms(1) ds]
    by auto
  have ack: "kind aco = ACO" "built_from aco = state"
    using generate_aco_post [OF ac] by simp_all
  obtain jiptl where ji: "generate_jiptl L state (seed L 42) = Inr (jiptl, seed L 42)"
    using generate_jiptl_ok [of L state "seed L 42"] by blast
  have jik: "kind jiptl = JIPTL" "built_from jiptl = state"
    using generate_jiptl_post [OF ji] by simp_all
  have cc: "generate_ccir state n
            = Inr \<lparr>kind = CCIR, serial = n, built_from = state, body = ReviewBody (739639 + d, 6)\<rparr>"
    for n by (rule generate_ccir_ok [OF f(3) assms(2,3)])
  have pp: "generate_pir state n
            = Inr \<lparr>kind = PIR, serial = n, built_from = state, body = ReviewBody (739639 + d, 6)\<rparr>"
    for n by (rule generate_pir_ok [OF f(3) assms(2,3)])
  show ?thesis
    by (simp add: run_day_def ds op fr ac ji cc pp Let_def cadence_def generate_roe_def
        generate_ato_def f(1,2) frk ack jik)
qed

lemma generate_opord_built: "generate_opord state = Inr doc \<Longrightarrow> built_from doc = state"
  by (auto simp: generate_opord_def split: if_splits)

lemma generate_ccir_built: "generate_ccir state n = Inr doc \<Longrightarrow> built_from doc = state"
  by (auto simp: generate_ccir_def split: sum.splits)

lemma generate_pir_built: "generate_pir state n = Inr doc \<Longrightarrow> built_from doc = state"
  by (auto simp: generate_pir_def split: sum.splits)

lemma run_day_InrD:
  assumes "run_day L d s = Inr s'"
  shows "rng s' = seed L 42 \<and> dirs s' = dirs s
     \<and> (\<exists>state new. DailyState L d (rng s) = Inr (state, seed L 42)
           \<and> docs s' = docs s @ new \<and> (\<forall>x \<in> set new. built_from x = state))"
proof -
  from assms obtain state g1 where ds: "DailyState L d (rng s) = Inr (state, g1)"
    by (auto simp: run_day_def split: sum.splits)
  have g1: "g1 = seed L 42" using ds by (rule DailyState_post)
  let ?changed = "phase state \<noteq> last_phase s"
  from assms ds obtain opord where
    op: "(if ?changed
          then (case generate_opord state of Inl e \<Rightarrow> Inl e | Inr doc \<Rightarrow> Inr [doc])
          else Inr []) = Inr opord"
    by (auto simp: run_day_def Let_def split: sum.splits)
  have opb: "\<forall>x \<in> set opord. built_from x = state"
    using op by (auto split: if_splits sum.splits dest: generate_opord_built)
  obtain frago g2 where fr: "generate_frago L state (frago_counter s + 1) g1 = (frago, g2)"
    by force
  have frb: "built_from frago = state"
    using fr generate_frago_fields(2) [of L state "frago_counter s + 1" g1] by simp
  from assms ds op fr obtain aco g3 where ac: "generate_aco L state g2 = Inr (aco, g3)"
    by (auto simp: run_day_def Let_def split: sum.splits)
  from assms ds op fr ac obtain jiptl g4 where ji: "generate_jiptl L state g3 = Inr (jiptl, g4)"
    by (auto simp: run_day_def Let_def split: sum.splits)
  from assms ds op fr ac ji obtain ccir ccir_n where
    cc: "(if d mod CCIR_INTERVAL = 0 \<or> ?changed
          then (case generate_ccir state (ccir_counter s + 1) of Inl e \<Rightarrow> Inl e
                | Inr doc \<Rightarrow> Inr ([doc], ccir_counter s + 1))
          else Inr ([], ccir_counter s)) = Inr (ccir, ccir_n)"
    by (auto simp: run_day_def Let_def split: sum.splits)
  have ccb: "\<forall>x \<in> set ccir. built_from x = state"
    using cc by (auto split: if_splits sum.splits dest: generate_ccir_built)
  from assms ds op fr ac ji cc obtain pir pir_n where
    pp: "(if d mod PIR_INTERVAL = 0 \<or> ?changed
          then (case generate_pir state (pir_counter s + 1) of Inl e \<Rightarrow> Inl e
                | Inr doc \<Rightarrow> Inr ([doc], pir_counter s + 1))
          else Inr ([], pir_counter s)) = Inr (pir, pir_n)"
    by (auto simp: run_day_def Let_def split: sum.splits)
  have ppb: "\<forall>x \<in> set pir. built_from x = state"
    using pp by (auto split: if_splits sum.splits dest: generate_pir_built)
  let ?roe = "if ?changed
              then [generate_roe state (if ?changed then roe_version s + 1 else roe_version s)]
              else []"
  let ?new = "opord @ ?roe @ [frago, generate_ato state, aco, jiptl] @ ccir @ pir"
  from assms have s': "docs s' = docs s @ ?new" "rng s' = g4" "dirs s' = dirs s"
    by (auto simp: run_day_def Let_def ds op fr ac ji cc pp)
  have "\<forall>x \<in> set ?new. built_from x = state"
    using opb ccb ppb frb generate_aco_post [OF ac] generate_jiptl_post [OF ji]
    by (auto simp: generate_roe_def generate_ato_def)
  moreover have "g4 = seed L 42" using generate_jiptl_post [OF ji] by simp
  ultimately show ?thesis
    using s' ds g1 by blast
qed

section \<open>The whole run\<close>

lemma run_days_append:
  "run_days L (xs @ ys) s
   = (case run_days L xs s of Inl e \<Rightarrow> Inl e | Inr s' \<Rightarrow> run_days L ys s')"
  by (induction xs arbitrary: s) (auto split: sum.splits)

lemma run_days_schedule:
  assumes "rng_ok L" "\<forall>d \<in> set ds. - 739635 \<le> d \<and> d \<le> 2912420"
  shows "\<exists>s'. run_days L ds s = Inr s'
     \<and> map (\<lambda>x. (kind x, day (built_from x))) (docs s')
         = map (\<lambda>x. (kind x, day (built_from x))) (docs s) @ schedule ds (last_phase s)
     \<and> dirs s' = dirs s"
  using assms(2)
proof (induction ds arbitrary: s)
  case Nil
  show ?case by simp
next
  case (Cons d ds)
  from Cons.prems have d: "- 739635 \<le> d" "d \<le> 2912420" by simp_all
  from run_day_step [OF assms(1) d, of s] obtain s1 where
    1: "run_day L d s = Inr s1"
    and 2: "map (\<lambda>x. (kind x, day (built_from x))) (docs s1)
            = map (\<lambda>x. (kind x, day (built_from x))) (docs s)
              @ map (\<lambda>k. (k, d)) (cadence d (last_phase s))"
    and 3: "last_phase s1 = get_phase d" "dirs s1 = dirs s"
    by blast
  from Cons.IH [of s1] Cons.prems obtain s' where
    4: "run_days L ds s1 = Inr s'"
    and 5: "map (\<lambda>x. (kind x, day (built_from x))) (docs s')
            = map (\<lambda>x. (kind x, day (built_from x))) (docs s1) @ schedule ds (last_phase s1)"
    and 6: "dirs s' = dirs s1"
    by auto
  show ?case
    by (simp add: 1 2 3 4 5 6)
qed

lemma run_days_InrD:
  assumes "run_days L ds s = Inr s'" "rng s = seed L 42"
    and "\<forall>x \<in> set (docs s).
           DailyState L (day (built_from x)) (seed L 42) = Inr (built_from x, seed L 42)"
  shows "rng s' = seed L 42 \<and> dirs s' = dirs s
     \<and> (\<forall>x \<in> set (docs s').
           DailyState L (day (built_from x)) (seed L 42) = Inr (built_from x, seed L 42))
     \<and> take (length (docs s)) (docs s') = docs s"
  using assms
proof (induction ds arbitrary: s)
  case Nil
  then show ?case by simp
next
  case (Cons d ds)
  from Cons.prems(1) obtain s1 where 1: "run_day L d s = Inr s1" and 2: "run_days L ds s1 = Inr s'"
    by (auto split: sum.splits)
  from run_day_InrD [OF 1] obtain state new where
    r: "rng s1 = seed L 42" "dirs s1 = dirs s"
    and st: "DailyState L d (rng s) = Inr (state, seed L 42)"
    and new: "docs s1 = docs s @ new" "\<forall>x \<in> set new. built_from x = state"
    by blast
  have "day state = d" using DailyState_fields(1) [OF st] .
  with st new(2) Cons.prems(2,3)
  have q: "\<forall>x \<in> set (docs s1).
           DailyState L (day (built_from x)) (seed L 42) = Inr (built_from x, seed L 42)"
    by (auto simp: new(1))
  from Cons.IH [OF 2 r(1) q] show ?case
    by (auto simp: r(2) new(1) dest: arg_cong [where f = "take (length (docs s))"])
qed

lemma run_schedule:
  assumes "rng_ok L" "n \<le> 2912421"
  shows "\<exists>s. run L n g = Inr s
     \<and> map (\<lambda>x. (kind x, day (built_from x))) (docs s) = schedule [0..n - 1] 0
     \<and> dirs s = [''OPORD'', ''FRAGO'', ''ATO'', ''ROE'', ''ACO'', ''CCIR'', ''PIR'', ''JIPTL'']"
proof -
  have "\<forall>d \<in> set [0..n - 1]. - 739635 \<le> d \<and> d \<le> 2912420"
    using assms(2) by auto
  from run_days_schedule [OF assms(1) this, of
      "\<lparr>frago_counter = 0, ccir_counter = 0, pir_counter = 0, roe_version = 0,
        last_phase = 0, total_docs = 0,
        dirs = [''OPORD'', ''FRAGO'', ''ATO'', ''ROE'', ''ACO'', ''CCIR'', ''PIR'', ''JIPTL''],
        docs = [], rng = g\<rparr>"]
  show ?thesis
    unfolding run_def by simp
qed

lemma count_kind:
  "length (filter (\<lambda>x. kind x = K) xs)
   = length (filter (\<lambda>p. fst p = K) (map (\<lambda>x. (kind x, day (built_from x))) xs))"
  by (induction xs) auto

lemma days_of_kind:
  "map (\<lambda>x. day (built_from x)) (filter (\<lambda>x. kind x = K) xs)
   = map snd (filter (\<lambda>p. fst p = K) (map (\<lambda>x. (kind x, day (built_from x))) xs))"
  by (induction xs) auto

lemma schedule_eight_days:
  "schedule [0..7] 0 =
    [(OPORD, 0), (ROE, 0), (FRAGO, 0), (ATO, 0), (ACO, 0), (JIPTL, 0), (CCIR, 0), (PIR, 0),
     (FRAGO, 1), (ATO, 1), (ACO, 1), (JIPTL, 1),
     (FRAGO, 2), (ATO, 2), (ACO, 2), (JIPTL, 2),
     (FRAGO, 3), (ATO, 3), (ACO, 3), (JIPTL, 3), (CCIR, 3), (PIR, 3),
     (FRAGO, 4), (ATO, 4), (ACO, 4), (JIPTL, 4),
     (FRAGO, 5), (ATO, 5), (ACO, 5), (JIPTL, 5),
     (FRAGO, 6), (ATO, 6), (ACO, 6), (JIPTL, 6), (CCIR, 6), (PIR, 6),
     (FRAGO, 7), (ATO, 7), (ACO, 7), (JIPTL, 7)]"
  by code_simp

lemma schedule_one_day:
  "schedule [0] 0 =
    [(OPORD, 0), (ROE, 0), (FRAGO, 0), (ATO, 0), (ACO, 0), (JIPTL, 0), (CCIR, 0), (PIR, 0)]"
  by code_simp

text \<open>
  Over any representable number of days, the files written by \<open>run\<close> are, in order, the
  ones the cadence rules call for.  One day gives one document of each of the eight
  kinds.
\<close>

lemma run_one_day:
  assumes "rng_ok L"
  shows "\<exists>s. run L 1 g = Inr s
     \<and> map (\<lambda>x. (kind x, day (built_from x))) (docs s)
        = [(OPORD, 0), (ROE, 0), (FRAGO, 0), (ATO, 0), (ACO, 0), (JIPTL, 0), (CCIR, 0), (PIR, 0)]"
  using run_schedule [OF assms, of 1 g] by (auto simp: schedule_one_day simp del: schedule.simps)

text \<open>
  C1.  Running the generator for 8 days (with \<open>CCIR_INTERVAL = PIR_INTERVAL = 3\<close>, as
  configured) returns normally and writes exactly 1 OPORD and 1 ROE, both on day 0,
  exactly 8 FRAGO, 8 ATO, 8 ACO and 8 JIPTL documents, and exactly 3 CCIR and 3 PIR
  documents, one each on days 0, 3 and 6.
\<close>

theorem run_eight_days_documents:
  assumes "rng_ok L"
  shows "\<exists>s. run L 8 g = Inr s
     \<and> length (filter (\<lambda>x. kind x = OPORD) (docs s)) = 1
     \<and> length (filter (\<lambda>x. kind x = ROE) (docs s)) = 1
     \<and> length (filter (\<lambda>x. kind x = FRAGO) (docs s)) = 8
     \<and> length (filter (\<lambda>x. kind x = ATO) (docs s)) = 8
     \<and> length (filter (\<lambda>x. kind x = ACO) (docs s)) = 8
     \<and> length (filter (\<lambda>x. kind x = JIPTL) (docs s)) = 8
     \<and> length (filter (\<lambda>x. kind x = CCIR) (docs s)) = 3
     \<and> length (filter (\<lambda>x. kind x = PIR) (docs s)) = 3
     \<and> map (\<lambda>x. day (built_from x)) (filter (\<lambda>x. kind x = OPORD) (docs s)) = [0]
     \<and> map (\<lambda>x. day (built_from x)) (filter (\<lambda>x. kind x = ROE) (docs s)) = [0]
     \<and> map (\<lambda>x. day (built_from x)) (filter (\<lambda>x. kind x = CCIR) (docs s)) = [0, 3, 6]
     \<and> map (\<lambda>x. day (built_from x)) (filter (\<lambda>x. kind x = PIR) (docs s)) = [0, 3, 6]"
proof -
  from run_schedule [OF assms, of 8 g] obtain s where
    r: "run L 8 g = Inr s"
    and m: "map (\<lambda>x. (kind x, day (built_from x))) (docs s) = schedule [0..7] 0"
    by auto
  have c: "length (filter (\<lambda>x. kind x = K) (docs s))
           = length (filter (\<lambda>p. fst p = K) (schedule [0..7] 0))" for K
    by (simp only: count_kind m)
  have d: "map (\<lambda>x. day (built_from x)) (filter (\<lambda>x. kind x = K) (docs s))
           = map snd (filter (\<lambda>p. fst p = K) (schedule [0..7] 0))" for K
    by (simp only: days_of_kind m)
  show ?thesis
    by (simp add: r c d schedule_eight_days)
qed

theorem run_eight_days_documents_witness:
  "case run counter_lib 8 42 of Inl e \<Rightarrow> False
   | Inr s \<Rightarrow> length (filter (\<lambda>x. kind x = OPORD) (docs s)) = 1
       \<and> length (filter (\<lambda>x. kind x = FRAGO) (docs s)) = 8
       \<and> map (\<lambda>x. day (built_from x)) (filter (\<lambda>x. kind x = CCIR) (docs s)) = [0, 3, 6]
       \<and> map (\<lambda>x. day (built_from x)) (filter (\<lambda>x. kind x = PIR) (docs s)) = [0, 3, 6]"
  using run_eight_days_documents [OF counter_lib_ok, of 42] by auto

section \<open>A non-positive number of days\<close>

text \<open>
  C9, as the specification states it: a non-positive \<^verbatim>\<open>--days\<close> is rejected and no output
  directory is created.  With \<^verbatim>\<open>--days 0\<close> the script is not rejected: it returns
  normally, having created the eight output directories.
\<close>

theorem nonpositive_days_not_rejected_counterexample:
  "map_sum id dirs (main counter_lib 0)
   = Inr [''OPORD'', ''FRAGO'', ''ATO'', ''ROE'', ''ACO'', ''CCIR'', ''PIR'', ''JIPTL'']"
  by (simp add: main_def run_def)

text \<open>
  C9, amended.  A non-positive \<^verbatim>\<open>--days\<close> value is not rejected: for every non-positive
  days argument the run creates the eight output directories, iterates over no day,
  produces no document, leaves the counters and the generator as they were, and returns
  normally.
\<close>

theorem run_nonpositive_days:
  assumes "n \<le> 0"
  shows "run L n g =
     Inr \<lparr>frago_counter = 0, ccir_counter = 0, pir_counter = 0, roe_version = 0,
          last_phase = 0, total_docs = 0,
          dirs = [''OPORD'', ''FRAGO'', ''ATO'', ''ROE'', ''ACO'', ''CCIR'', ''PIR'', ''JIPTL''],
          docs = [], rng = g\<rparr>"
  using assms by (simp add: run_def)

theorem run_nonpositive_days_witness:
  "(- 3 :: int) \<le> 0
   \<and> run counter_lib (- 3) 42 =
     Inr \<lparr>frago_counter = 0, ccir_counter = 0, pir_counter = 0, roe_version = 0,
          last_phase = 0, total_docs = 0,
          dirs = [''OPORD'', ''FRAGO'', ''ATO'', ''ROE'', ''ACO'', ''CCIR'', ''PIR'', ''JIPTL''],
          docs = [], rng = 42\<rparr>"
proof -
  have h: "(- 3 :: int) \<le> 0" by simp
  from run_nonpositive_days [OF h, of counter_lib 42] h show ?thesis by blast
qed

section \<open>The generator state at the start of every day\<close>

lemma main_prefix:
  assumes "main L n = Inr s" "0 \<le> k" "k \<le> n"
  shows "\<exists>sk. main L k = Inr sk \<and> run_days L [k..n - 1] sk = Inr s"
proof (cases "k = n")
  case True
  with assms(1) show ?thesis by simp
next
  case False
  with assms have "[0..n - 1] = [0..k - 1] @ [k..n - 1]"
    by (intro upto_split1) simp_all
  with assms(1) show ?thesis
    by (auto simp: main_def run_def run_days_append split: sum.splits)
qed

lemma main_InrD:
  assumes "main L n = Inr s"
  shows "rng s = seed L 42
     \<and> (\<forall>x \<in> set (docs s).
           DailyState L (day (built_from x)) (seed L 42) = Inr (built_from x, seed L 42))"
  using run_days_InrD [of L "[0..n - 1]" _ s] assms
  by (simp add: main_def run_def)

text \<open>
  C10.  Every Daily State construction and each of the ACO and JIPTL generators leaves
  the global generator in the state of \<^verbatim>\<open>random.seed(42)\<close>.  Hence in a run of \<open>n\<close> days
  the generator is in that state at the start of the iteration of every day \<open>k\<close>: the
  run up to day \<open>k\<close> is the run of \<open>k\<close> days, it ends in the seed-42 state, and the
  documents it wrote are the first documents of the longer run.  Every document of the
  run is built from the state that the constructor returns for its day when called in
  the seed-42 state, a function of the day alone.
\<close>

theorem every_day_starts_from_seed_42:
  "(DailyState L d g = Inr (st, g') \<longrightarrow> g' = seed L 42)
   \<and> (generate_aco L st g = Inr (doc, g') \<longrightarrow> g' = seed L 42)
   \<and> (generate_jiptl L st g = Inr (doc, g') \<longrightarrow> g' = seed L 42)
   \<and> (main L n = Inr s \<longrightarrow> 0 \<le> k \<longrightarrow> k \<le> n \<longrightarrow>
        (\<exists>sk. main L k = Inr sk \<and> rng sk = seed L 42
            \<and> run_days L [k..n - 1] sk = Inr s
            \<and> take (length (docs sk)) (docs s) = docs sk)
        \<and> (\<forall>x \<in> set (docs s).
              DailyState L (day (built_from x)) (seed L 42) = Inr (built_from x, seed L 42)))"
proof (intro conjI impI)
  show "g' = seed L 42" if "DailyState L d g = Inr (st, g')"
    using that by (rule DailyState_post)
  show "g' = seed L 42" if "generate_aco L st g = Inr (doc, g')"
    using generate_aco_post [OF that] by simp
  show "g' = seed L 42" if "generate_jiptl L st g = Inr (doc, g')"
    using generate_jiptl_post [OF that] by simp
  show "\<forall>x \<in> set (docs s).
          DailyState L (day (built_from x)) (seed L 42) = Inr (built_from x, seed L 42)"
    if "main L n = Inr s"
    using main_InrD [OF that] by simp
  show "\<exists>sk. main L k = Inr sk \<and> rng sk = seed L 42
          \<and> run_days L [k..n - 1] sk = Inr s
          \<and> take (length (docs sk)) (docs s) = docs sk"
    if m: "main L n = Inr s" and k: "0 \<le> k" "k \<le> n"
  proof -
    from main_prefix [OF m k] obtain sk where
      1: "main L k = Inr sk" and 2: "run_days L [k..n - 1] sk = Inr s"
      by blast
    from main_InrD [OF 1] run_days_InrD [OF 2] have "rng sk = seed L 42"
      "take (length (docs sk)) (docs s) = docs sk"
      by simp_all
    with 1 2 show ?thesis by blast
  qed
qed

theorem every_day_starts_from_seed_42_witness:
  "(case DailyState counter_lib 3 7 of Inl e \<Rightarrow> False
    | Inr (st, g') \<Rightarrow> g' = seed counter_lib 42
        \<and> (case generate_aco counter_lib st 7 of Inl e \<Rightarrow> False
           | Inr (doc, g2) \<Rightarrow> g2 = seed counter_lib 42)
        \<and> (case generate_jiptl counter_lib st 7 of Inl e \<Rightarrow> False
           | Inr (doc, g2) \<Rightarrow> g2 = seed counter_lib 42))
   \<and> (case (main counter_lib 8, main counter_lib 3) of
        (Inr s, Inr sk) \<Rightarrow> rng sk = seed counter_lib 42
            \<and> run_days counter_lib [3..8 - 1] sk = Inr s
            \<and> take (length (docs sk)) (docs s) = docs sk
            \<and> (\<forall>x \<in> set (docs s).
                  DailyState counter_lib (day (built_from x)) (seed counter_lib 42)
                  = Inr (built_from x, seed counter_lib 42))
      | _ \<Rightarrow> False)"
proof -
  obtain st g' where ds: "DailyState counter_lib 3 7 = Inr (st, g')"
    using DailyState_ok [OF counter_lib_ok, of 3 7] by auto
  from DailyState_acm_count [OF counter_lib_ok ds] have "0 \<le> acm_count st"
    by simp
  from generate_aco_ok [OF counter_lib_ok this, of 7]
  obtain da ga where aco: "generate_aco counter_lib st 7 = Inr (da, ga)"
    by blast
  from generate_jiptl_ok [of counter_lib st 7]
  obtain dj gj where jiptl: "generate_jiptl counter_lib st 7 = Inr (dj, gj)"
    by blast
  obtain s where m: "main counter_lib 8 = Inr s"
    using run_schedule [OF counter_lib_ok, of 8 "seed counter_lib 42"]
    unfolding main_def by auto
  have 1: "g' = seed counter_lib 42"
    using every_day_starts_from_seed_42
      [where L = counter_lib and d = 3 and g = 7 and st = st and g' = g', THEN conjunct1] ds
    by blast
  have 2: "ga = seed counter_lib 42"
    using every_day_starts_from_seed_42
      [where L = counter_lib and g = 7 and st = st and g' = ga and doc = da,
        THEN conjunct2, THEN conjunct1] aco
    by blast
  have 3: "gj = seed counter_lib 42"
    using every_day_starts_from_seed_42
      [where L = counter_lib and g = 7 and st = st and g' = gj and doc = dj,
        THEN conjunct2, THEN conjunct2, THEN conjunct1] jiptl
    by blast
  have k: "(0::int) \<le> 3" "(3::int) \<le> 8"
    by simp_all
  from every_day_starts_from_seed_42
      [where L = counter_lib and n = 8 and s = s and k = 3,
        THEN conjunct2, THEN conjunct2, THEN conjunct2] m k
  obtain sk where 4: "main counter_lib 3 = Inr sk" "rng sk = seed counter_lib 42"
      "run_days counter_lib [3..8 - 1] sk = Inr s"
      "take (length (docs sk)) (docs s) = docs sk"
    and 5: "\<forall>x \<in> set (docs s).
        DailyState counter_lib (day (built_from x)) (seed counter_lib 42)
        = Inr (built_from x, seed counter_lib 42)"
    by blast
  from 1 2 3 4 5 show ?thesis
    by (simp only: ds aco jiptl m sum.case prod.case simp_thms)
qed


end
